theory Spec2Isabelle
  imports Complex_Main "HOL-Library.Log_Nat"
begin

section \<open>JavaScript numbers\<close>

text \<open>
  The mouse module of \<^verbatim>\<open>kvmd/web/js/mouse.js\<close> computes with JavaScript Numbers,
  that is IEEE 754 binary64 values. A Number is modelled as a rational (the finite values),
  the two infinities or NaN. Every arithmetic operation computes the exact result and rounds
  it to the nearest binary64 value, ties to even, as ECMAScript prescribes.

  The sign of zero is not tracked: \<^verbatim>\<open>-0 === 0\<close> holds, \<^verbatim>\<open>JSON.stringify(-0)\<close> is
  \<^verbatim>\<open>"0"\<close>, and the only operation that tells the two zeros apart is a division by zero.
  The one divisor of the module is \<^verbatim>\<open>b - a\<close> with \<^verbatim>\<open>a = 0\<close> and \<^verbatim>\<open>b\<close> a
  \<^verbatim>\<open>clientWidth\<close> or \<^verbatim>\<open>clientHeight\<close>, which is never a negative zero; a zero divisor
  is therefore taken as \<^verbatim>\<open>+0\<close>.
\<close>

datatype number = Fin rat | PosInf | NegInf | NaN

text \<open>\<open>ilog2 a\<close> is the binary exponent of a positive rational: \<open>2 powi ilog2 a \<le> a < 2 powi (ilog2 a + 1)\<close>.\<close>

definition ilog2 :: "rat \<Rightarrow> int" where
  "ilog2 a = (if 1 \<le> a then bitlen \<lfloor>a\<rfloor> - 1
              else (let j = bitlen \<lfloor>1 / a\<rfloor> - 1
                    in if a = 2 powi (- j) then - j else - j - 1))"

definition round_half_even :: "rat \<Rightarrow> int" where
  "round_half_even q = (let f = \<lfloor>q\<rfloor>; r = q - of_int f
     in if r < 1 / 2 then f else if 1 / 2 < r then f + 1 else if even f then f else f + 1)"

text \<open>
  Rounding of a positive rational to 53 significant bits; below \<open>2 powi (- 1022)\<close> the
  spacing stays \<open>2 powi (- 1074)\<close> (subnormal numbers).
\<close>

definition exponent :: "rat \<Rightarrow> int" where
  "exponent a = max (ilog2 a - 52) (- 1074)"

definition rnd_abs :: "rat \<Rightarrow> rat" where
  "rnd_abs a = (let e = exponent a
                in of_int (round_half_even (a / 2 powi e)) * 2 powi e)"

definition rnd :: "rat \<Rightarrow> rat" where
  "rnd q = (if q = 0 then 0 else if 0 < q then rnd_abs q else - rnd_abs (- q))"

text \<open>The Number value of an exact result: rounded, and infinite from \<open>2 ^ 1024\<close> on.\<close>

definition fl :: "rat \<Rightarrow> number" where
  "fl q = (let v = rnd q
           in if 2 ^ 1024 \<le> v then PosInf else if v \<le> - (2 ^ 1024) then NegInf else Fin v)"

fun js_neg :: "number \<Rightarrow> number" where
  "js_neg NaN = NaN"
| "js_neg PosInf = NegInf"
| "js_neg NegInf = PosInf"
| "js_neg (Fin q) = Fin (- q)"

fun js_add :: "number \<Rightarrow> number \<Rightarrow> number" where
  "js_add NaN _ = NaN"
| "js_add _ NaN = NaN"
| "js_add PosInf NegInf = NaN"
| "js_add NegInf PosInf = NaN"
| "js_add PosInf _ = PosInf"
| "js_add NegInf _ = NegInf"
| "js_add _ PosInf = PosInf"
| "js_add _ NegInf = NegInf"
| "js_add (Fin p) (Fin q) = fl (p + q)"

text \<open>\<^verbatim>\<open>x - y\<close> is \<^verbatim>\<open>x + (-y)\<close> (ECMAScript, Number::subtract).\<close>

definition js_sub :: "number \<Rightarrow> number \<Rightarrow> number" where
  "js_sub a b = js_add a (js_neg b)"

fun js_mul :: "number \<Rightarrow> number \<Rightarrow> number" where
  "js_mul NaN _ = NaN"
| "js_mul _ NaN = NaN"
| "js_mul PosInf PosInf = PosInf"
| "js_mul PosInf NegInf = NegInf"
| "js_mul NegInf PosInf = NegInf"
| "js_mul NegInf NegInf = PosInf"
| "js_mul PosInf (Fin q) = (if q = 0 then NaN else if 0 < q then PosInf else NegInf)"
| "js_mul NegInf (Fin q) = (if q = 0 then NaN else if 0 < q then NegInf else PosInf)"
| "js_mul (Fin p) PosInf = (if p = 0 then NaN else if 0 < p then PosInf else NegInf)"
| "js_mul (Fin p) NegInf = (if p = 0 then NaN else if 0 < p then NegInf else PosInf)"
| "js_mul (Fin p) (Fin q) = fl (p * q)"

fun js_div :: "number \<Rightarrow> number \<Rightarrow> number" where
  "js_div NaN _ = NaN"
| "js_div _ NaN = NaN"
| "js_div PosInf PosInf = NaN"
| "js_div PosInf NegInf = NaN"
| "js_div NegInf PosInf = NaN"
| "js_div NegInf NegInf = NaN"
| "js_div PosInf (Fin q) = (if 0 \<le> q then PosInf else NegInf)"
| "js_div NegInf (Fin q) = (if 0 \<le> q then NegInf else PosInf)"
| "js_div (Fin p) PosInf = Fin 0"
| "js_div (Fin p) NegInf = Fin 0"
| "js_div (Fin p) (Fin q) =
     (if q = 0 then (if p = 0 then NaN else if 0 < p then PosInf else NegInf)
      else fl (p / q))"

text \<open>
  \<^verbatim>\<open>Math.round\<close>: the nearest integer, a tie going towards \<open>+\<infinity>\<close>; NaN and the
  infinities are returned as they are.
\<close>

fun Math_round :: "number \<Rightarrow> number" where
  "Math_round (Fin q) = Fin (of_int \<lfloor>q + 1 / 2\<rfloor>)"
| "Math_round n = n"

text \<open>\<^verbatim>\<open>a !== b\<close> on Numbers: NaN differs from everything, itself included.\<close>

fun js_strict_neq :: "number \<Rightarrow> number \<Rightarrow> bool" where
  "js_strict_neq NaN _ = True"
| "js_strict_neq _ NaN = True"
| "js_strict_neq a b = (a \<noteq> b)"

section \<open>The mouse module\<close>

subsection \<open>Data\<close>

text \<open>An object \<^verbatim>\<open>{x: ..., y: ...}\<close>: a position, a normalised position or a wheel delta.\<close>

record point =
  px :: number
  py :: number

type_synonym socket = nat

text \<open>The closure variables of \<^verbatim>\<open>Mouse()\<close>; \<open>ws = None\<close> is \<^verbatim>\<open>__ws = null\<close>.\<close>

record mouse =
  ws :: "socket option"
  current_pos :: point
  sent_pos :: point
  stream_hovered :: bool

text \<open>What the handlers read from the browser.\<close>

record element =
  clientWidth :: number
  clientHeight :: number

record rect =
  rect_left :: number
  rect_top :: number

record mouse_event =
  button :: int
  clientX :: number
  clientY :: number
  target_rect :: rect

record touch =
  touch_clientX :: number
  touch_clientY :: number
  touch_target_rect :: rect

record touch_event =
  touches :: "touch list"

record wheel_event =
  has_preventDefault :: bool
  deltaX :: number
  deltaY :: number

text \<open>The objects that the handlers build for \<^verbatim>\<open>JSON.stringify\<close>.\<close>

datatype payload =
    Mouse_move point
  | Mouse_button string bool
  | Mouse_wheel point

text \<open>
  The text that \<^verbatim>\<open>JSON.stringify\<close> returns and \<^verbatim>\<open>__ws.send\<close> transmits is
  modelled by the JSON document that it spells, with the members of an object in the order of
  the text. A finite Number is written as a number, which stands for the same value; NaN and
  the two infinities are written \<^verbatim>\<open>null\<close>.
\<close>

datatype json =
    JNull
  | JBool bool
  | JNumber rat
  | JString string
  | JObject "(string \<times> json) list"

fun json_number :: "number \<Rightarrow> json" where
  "json_number (Fin q) = JNumber q"
| "json_number _ = JNull"

definition json_point :: "point \<Rightarrow> json" where
  "json_point p = JObject [(''x'', json_number (px p)), (''y'', json_number (py p))]"

fun JSON_stringify :: "payload \<Rightarrow> json" where
  "JSON_stringify (Mouse_move to) =
     JObject [(''event_type'', JString ''mouse_move''), (''to'', json_point to)]"
| "JSON_stringify (Mouse_button b state) =
     JObject [(''event_type'', JString ''mouse_button''), (''button'', JString b),
              (''state'', JBool state)]"
| "JSON_stringify (Mouse_wheel delta) =
     JObject [(''event_type'', JString ''mouse_wheel''), (''delta'', json_point delta)]"

text \<open>What a handler does to the outside world, in the order in which it does it.\<close>

datatype effect =
    PreventDefault
  | StopPropagation
  | Debug_move point
  | Debug_button bool string
  | Debug_wheel point
  | Send socket json
  | ClassList_add string
  | ClassList_remove string
  | Led string string
  | Uncaught_TypeError

datatype error = TypeError

definition Mouse :: mouse where
  "Mouse = \<lparr>ws = None, current_pos = \<lparr>px = Fin 0, py = Fin 0\<rparr>,
            sent_pos = \<lparr>px = Fin 0, py = Fin 0\<rparr>, stream_hovered = False\<rparr>"

subsection \<open>Operations\<close>

text \<open>
  Each function of \<^verbatim>\<open>mouse.js\<close> takes the closure variables as a \<^typ>\<open>mouse\<close> and
  returns them updated, with the list of its effects. \<^verbatim>\<open>__sendMove\<close> reads the size of
  the element \<^verbatim>\<open>stream-image\<close> from the document: it is the first argument of the
  functions that reach it.
\<close>

text \<open>\<^verbatim>\<open>__translate\<close> (lines 131 to 133).\<close>

definition translate :: "number \<Rightarrow> number \<Rightarrow> number \<Rightarrow> number \<Rightarrow> number \<Rightarrow> number" where
  "translate x a b c d =
     Math_round (js_add (js_mul (js_div (js_sub x a) (js_sub b a)) (js_sub d c)) c)"

text \<open>\<^verbatim>\<open>__sendMove\<close> (lines 112 to 129).\<close>

definition sendMove :: "element \<Rightarrow> mouse \<Rightarrow> mouse \<times> effect list" where
  "sendMove el_stream_image s =
     (let pos = current_pos s
      in if js_strict_neq (px pos) (px (sent_pos s)) \<or> js_strict_neq (py pos) (py (sent_pos s))
         then
           (let to = \<lparr>px = translate (px pos) (Fin 0) (clientWidth el_stream_image)
                                (Fin (- 32768)) (Fin 32767),
                      py = translate (py pos) (Fin 0) (clientHeight el_stream_image)
                                (Fin (- 32768)) (Fin 32767)\<rparr>
            in (s\<lparr>sent_pos := pos\<rparr>,
                Debug_move to #
                (case ws s of
                   None \<Rightarrow> []
                 | Some w \<Rightarrow> [Send w (JSON_stringify (Mouse_move to))])))
         else (s, []))"

text \<open>\<^verbatim>\<open>self.setSocket\<close>, \<^verbatim>\<open>self.updateLeds\<close>, \<^verbatim>\<open>__hoverStream\<close> and \<^verbatim>\<open>__leaveStream\<close> (lines 32 to 59).\<close>

definition setSocket :: "socket option \<Rightarrow> mouse \<Rightarrow> mouse \<times> effect list" where
  "setSocket w s =
     (s\<lparr>ws := w\<rparr>,
      [if w \<noteq> None then ClassList_add ''stream-box-mouse-enabled''
       else ClassList_remove ''stream-box-mouse-enabled''])"

definition updateLeds :: "mouse \<Rightarrow> effect list" where
  "updateLeds s =
     (if ws s \<noteq> None \<and> stream_hovered s then [Led ''led-on'' ''Mouse tracked'']
      else [Led ''led-off'' ''Mouse free''])"

definition hoverStream :: "mouse \<Rightarrow> mouse \<times> effect list" where
  "hoverStream s = (let s' = s\<lparr>stream_hovered := True\<rparr> in (s', updateLeds s'))"

definition leaveStream :: "mouse \<Rightarrow> mouse \<times> effect list" where
  "leaveStream s = (let s' = s\<lparr>stream_hovered := False\<rparr> in (s', updateLeds s'))"

text \<open>
  \<^verbatim>\<open>__touchHandler\<close> (lines 61 to 81).
  \<^verbatim>\<open>event.touches[0]\<close> of an empty list is \<^verbatim>\<open>undefined\<close>, and reading its
  \<^verbatim>\<open>target\<close> throws a TypeError before anything has been changed.
\<close>

definition touchHandler ::
  "element \<Rightarrow> touch_event \<Rightarrow> bool \<Rightarrow> mouse \<Rightarrow> error + mouse \<times> effect list" where
  "touchHandler el_stream_image event state s =
     (case (if state then
              (case touches event of
                 [] \<Rightarrow> Inl TypeError
               | t # _ \<Rightarrow>
                   (let rect = touch_target_rect t
                    in Inr (sendMove el_stream_image
                         (s\<lparr>current_pos :=
                              \<lparr>px = Math_round (js_sub (touch_clientX t) (rect_left rect)),
                               py = Math_round (js_sub (touch_clientY t) (rect_top rect))\<rparr>\<rparr>))))
            else Inr (s, []))
      of Inl e \<Rightarrow> Inl e
       | Inr (s', moved) \<Rightarrow>
           (let button = ''left''
            in Inr (s', moved @ [Debug_button state button] @
                    (case ws s' of
                       None \<Rightarrow> []
                     | Some w \<Rightarrow> [Send w (JSON_stringify (Mouse_button button state))]) @
                    [StopPropagation, PreventDefault])))"

text \<open>\<^verbatim>\<open>__buttonHandler\<close> (lines 83 to 102); \<open>None\<close> is \<^verbatim>\<open>button = null\<close>.\<close>

definition buttonHandler ::
  "element \<Rightarrow> mouse_event \<Rightarrow> bool \<Rightarrow> mouse \<Rightarrow> mouse \<times> effect list" where
  "buttonHandler el_stream_image event state s =
     (let button = (if button event = 0 then Some ''left''
                    else if button event = 2 then Some ''right''
                    else None)
      in case button of
           None \<Rightarrow> (s, [])
         | Some b \<Rightarrow>
             (let (s', moved) = sendMove el_stream_image s
              in (s', [PreventDefault, Debug_button state b] @ moved @
                      (case ws s' of
                         None \<Rightarrow> []
                       | Some w \<Rightarrow> [Send w (JSON_stringify (Mouse_button b state))]))))"

text \<open>\<^verbatim>\<open>__moveHandler\<close> (lines 104 to 110).\<close>

definition moveHandler :: "mouse_event \<Rightarrow> mouse \<Rightarrow> mouse" where
  "moveHandler event s =
     (let rect = target_rect event
      in s\<lparr>current_pos :=
             \<lparr>px = Math_round (js_sub (clientX event) (rect_left rect)),
              py = Math_round (js_sub (clientY event) (rect_top rect))\<rparr>\<rparr>)"

text \<open>\<^verbatim>\<open>__wheelHandler\<close> (lines 135 to 148).\<close>

definition wheelHandler :: "wheel_event \<Rightarrow> mouse \<Rightarrow> mouse \<times> effect list" where
  "wheelHandler event s =
     (let delta = \<lparr>px = deltaX event, py = deltaY event\<rparr>
      in (s, (if has_preventDefault event then [PreventDefault] else []) @
             [Debug_wheel delta] @
             (case ws s of
                None \<Rightarrow> []
              | Some w \<Rightarrow> [Send w (JSON_stringify (Mouse_wheel delta))])))"

subsection \<open>The event loop\<close>

text \<open>
  \<^verbatim>\<open>__init__\<close> registers the handlers on the stream box and starts the 100 ms timer of
  \<^verbatim>\<open>__sendMove\<close>. The browser runs one handler at a time, to completion. An event that
  reaches \<^verbatim>\<open>__sendMove\<close> carries the size the stream image has at that moment.
\<close>

datatype event =
    Tick element
  | Mouseenter
  | Mouseleave
  | Mousedown element mouse_event
  | Mouseup element mouse_event
  | Contextmenu
  | Mousemove mouse_event
  | Wheel wheel_event
  | Touchstart element touch_event
  | Touchend element touch_event
  | SetSocket "socket option"

text \<open>An exception that leaves a handler ends the handler, and the module goes on.\<close>

definition uncaught :: "error + mouse \<times> effect list \<Rightarrow> mouse \<Rightarrow> mouse \<times> effect list" where
  "uncaught r s = (case r of Inl e \<Rightarrow> (s, [Uncaught_TypeError]) | Inr res \<Rightarrow> res)"

fun dispatch :: "event \<Rightarrow> mouse \<Rightarrow> mouse \<times> effect list" where
  "dispatch (Tick el) s = sendMove el s"
| "dispatch Mouseenter s = hoverStream s"
| "dispatch Mouseleave s = leaveStream s"
| "dispatch (Mousedown el ev) s = buttonHandler el ev True s"
| "dispatch (Mouseup el ev) s = buttonHandler el ev False s"
| "dispatch Contextmenu s = (s, [PreventDefault])"
| "dispatch (Mousemove ev) s = (moveHandler ev s, [])"
| "dispatch (Wheel ev) s = wheelHandler ev s"
| "dispatch (Touchstart el ev) s = uncaught (touchHandler el ev True s) s"
| "dispatch (Touchend el ev) s = uncaught (touchHandler el ev False s) s"
| "dispatch (SetSocket w) s = setSocket w s"

fun run :: "event list \<Rightarrow> mouse \<Rightarrow> mouse \<times> effect list" where
  "run [] s = (s, [])"
| "run (e # es) s =
     (let (s1, out1) = dispatch e s; (s2, out2) = run es s1 in (s2, out1 @ out2))"

subsection \<open>Observations\<close>

text \<open>The messages that went out over the channel, in order.\<close>

fun sent :: "effect list \<Rightarrow> json list" where
  "sent [] = []"
| "sent (Send w p # es) = p # sent es"
| "sent (_ # es) = sent es"

text \<open>\<^verbatim>\<open>pos.x !== __sent_pos.x || pos.y !== __sent_pos.y\<close>, the test of \<^verbatim>\<open>__sendMove\<close>.\<close>

definition differs :: "point \<Rightarrow> point \<Rightarrow> bool" where
  "differs p q \<longleftrightarrow> js_strict_neq (px p) (px q) \<or> js_strict_neq (py p) (py q)"

text \<open>The normalised position that \<^verbatim>\<open>__sendMove\<close> builds for a position and an image size.\<close>

definition to_of :: "element \<Rightarrow> point \<Rightarrow> point" where
  "to_of el pos =
     \<lparr>px = translate (px pos) (Fin 0) (clientWidth el) (Fin (- 32768)) (Fin 32767),
      py = translate (py pos) (Fin 0) (clientHeight el) (Fin (- 32768)) (Fin 32767)\<rparr>"

text \<open>
  The contract of the specification's CoordinateNormalizer, in its words:
  \<^verbatim>\<open>round((value - 0) / (viewportExtent - 0) * (32767 - (-32768)) + (-32768))\<close>,
  with the arithmetic and the rounding of the module's language.
\<close>

definition normalize_spec :: "number \<Rightarrow> number \<Rightarrow> number" where
  "normalize_spec v viewportExtent =
     Math_round
       (js_add
          (js_mul (js_div (js_sub v (Fin 0)) (js_sub viewportExtent (Fin 0)))
                  (js_sub (Fin 32767) (Fin (- 32768))))
          (Fin (- 32768)))"

text \<open>
  The linear map of the specification, in exact arithmetic: it sends 0 to -32768 and the
  extent \<open>w\<close> to 32767.
\<close>

definition linear_map :: "int \<Rightarrow> int \<Rightarrow> rat" where
  "linear_map x w = of_int x / of_int w * 65535 - 32768"

text \<open>A value half-way between two integers, where the rounding rule decides.\<close>

definition is_tie :: "rat \<Rightarrow> bool" where
  "is_tie q \<longleftrightarrow> of_int \<lfloor>q + 1 / 2\<rfloor> = q + 1 / 2"

text \<open>An integer pixel position, and a stream image of integer size.\<close>

definition pixel :: "int \<Rightarrow> int \<Rightarrow> point" where
  "pixel x y = \<lparr>px = Fin (of_int x), py = Fin (of_int y)\<rparr>"

definition stream_image :: "int \<Rightarrow> int \<Rightarrow> element" where
  "stream_image w h = \<lparr>clientWidth = Fin (of_int w), clientHeight = Fin (of_int h)\<rparr>"

text \<open>A position none of whose coordinates is NaN; every pixel position is one.\<close>

definition defined_pos :: "point \<Rightarrow> bool" where
  "defined_pos p \<longleftrightarrow> px p \<noteq> NaN \<and> py p \<noteq> NaN"

text \<open>An integer of the 16-bit signed range.\<close>

fun is_int16 :: "number \<Rightarrow> bool" where
  "is_int16 (Fin q) \<longleftrightarrow> q = of_int \<lfloor>q\<rfloor> \<and> - 32768 \<le> q \<and> q \<le> 32767"
| "is_int16 _ \<longleftrightarrow> False"

text \<open>Equal to an integer up to one unit, the most that a rounding rule can account for.\<close>

fun within_rounding :: "number \<Rightarrow> int \<Rightarrow> bool" where
  "within_rounding (Fin q) t \<longleftrightarrow> \<bar>q - of_int t\<bar> \<le> 1"
| "within_rounding _ t \<longleftrightarrow> False"

text \<open>A message whose first member is \<^verbatim>\<open>"event_type": "mouse_move"\<close>.\<close>

fun is_move :: "json \<Rightarrow> bool" where
  "is_move (JObject ((k, v) # _)) \<longleftrightarrow> k = ''event_type'' \<and> v = JString ''mouse_move''"
| "is_move _ \<longleftrightarrow> False"

text \<open>The events that leave \<^verbatim>\<open>__current_pos\<close> alone: all but pointer motion and touch start.\<close>

fun keeps_pointer :: "event \<Rightarrow> bool" where
  "keeps_pointer (Mousemove _) \<longleftrightarrow> False"
| "keeps_pointer (Touchstart _ _) \<longleftrightarrow> False"
| "keeps_pointer _ \<longleftrightarrow> True"

text \<open>The events that leave an absent channel absent: all but \<^verbatim>\<open>setSocket\<close> of a socket.\<close>

fun keeps_offline :: "event \<Rightarrow> bool" where
  "keeps_offline (SetSocket (Some _)) \<longleftrightarrow> False"
| "keeps_offline _ \<longleftrightarrow> True"

text \<open>The position that a touch sets: the first touch point, relative to its target.\<close>

definition touch_pos :: "touch \<Rightarrow> point" where
  "touch_pos t =
     \<lparr>px = Math_round (js_sub (touch_clientX t) (rect_left (touch_target_rect t))),
      py = Math_round (js_sub (touch_clientY t) (rect_top (touch_target_rect t)))\<rparr>"

section \<open>Properties of the rounding\<close>

subsection \<open>The binary exponent\<close>

lemma ilog2_ge1:
  assumes "1 \<le> a"
  shows "2 powi (ilog2 a) \<le> a \<and> a < 2 powi (ilog2 a + 1)"
proof -
  define n where "n = \<lfloor>a\<rfloor>"
  have n1: "1 \<le> n" using assms by (simp add: n_def)
  then have npos: "0 < n" by simp
  have bl: "1 \<le> bitlen n" using npos by (simp add: bitlen_alt_def)
  from bitlen_bounds[OF npos] have lo: "2 ^ nat (bitlen n - 1) \<le> n" and hi: "n < 2 ^ nat (bitlen n)"
    by simp_all
  have k: "ilog2 a = bitlen n - 1" using assms by (simp add: ilog2_def n_def)
  have "(2::rat) powi (bitlen n - 1) = of_int (2 ^ nat (bitlen n - 1))"
    using bl by (simp add: power_int_nonneg_exp)
  also have "\<dots> \<le> of_int n" using lo by (simp only: of_int_le_iff)
  also have "\<dots> \<le> a" by (simp add: n_def)
  finally have A: "2 powi (ilog2 a) \<le> a" by (simp add: k)
  have "n + 1 \<le> 2 ^ nat (bitlen n)" using hi by simp
  then have "(of_int (n + 1) :: rat) \<le> of_int (2 ^ nat (bitlen n))" by (simp only: of_int_le_iff)
  moreover have "a < of_int (n + 1)" using floor_correct[of a] by (simp add: n_def)
  moreover have "(of_int (2 ^ nat (bitlen n)) :: rat) = 2 powi (bitlen n)"
    using bl by (simp add: power_int_nonneg_exp)
  ultimately have B: "a < 2 powi (ilog2 a + 1)" by (simp add: k)
  from A B show ?thesis ..
qed

lemma ilog2_lt1:
  assumes "0 < a" "a < 1"
  shows "2 powi (ilog2 a) \<le> a \<and> a < 2 powi (ilog2 a + 1)"
proof -
  define j where "j = bitlen \<lfloor>1 / a\<rfloor> - 1"
  define b where "b = 1 / a"
  have b1: "1 \<le> b" using assms by (simp add: b_def)
  then have "ilog2 b = j" by (simp add: ilog2_def j_def b_def)
  with ilog2_ge1[OF b1] have "2 powi j \<le> b" and "b < 2 powi (j + 1)"
    by simp_all
  then have "2 powi j \<le> 1 / a" and "1 / a < 2 powi (j + 1)"
    by (simp_all add: b_def)
  then have "a * 2 powi j \<le> 1" and "1 < a * 2 powi (j + 1)"
    using assms by (simp_all add: field_simps)
  then have "a \<le> 1 / 2 powi j" and "1 / 2 powi (j + 1) < a"
    by (simp_all add: field_simps)
  then have up: "a \<le> 2 powi (- j)" and low: "2 powi (- (j + 1)) < a"
    by (simp_all only: power_int_minus_divide)
  show ?thesis
  proof (cases "a = 2 powi (- j)")
    case True
    then have "ilog2 a = - j" using assms unfolding ilog2_def j_def by (simp add: Let_def)
    moreover have "(2::rat) powi (- j) < 2 powi (- j + 1)"
      by (rule power_int_strict_increasing) simp_all
    ultimately show ?thesis using True by simp
  next
    case False
    then have k: "ilog2 a = - (j + 1)" using assms unfolding ilog2_def j_def by (simp add: Let_def)
    have "2 powi (- (j + 1)) \<le> a" using low by simp
    moreover have "a < 2 powi (- (j + 1) + 1)" using False up by simp
    ultimately show ?thesis unfolding k ..
  qed
qed

lemma ilog2_bounds:
  assumes "0 < a"
  shows "2 powi (ilog2 a) \<le> a" and "a < 2 powi (ilog2 a + 1)"
  using ilog2_ge1[of a] ilog2_lt1[of a] assms by (cases "1 \<le> a"; simp)+

lemma ilog2_less: "0 < a \<Longrightarrow> a < 2 powi j \<Longrightarrow> ilog2 a < j"
proof (rule ccontr)
  assume a: "0 < a" "a < 2 powi j" and "\<not> ilog2 a < j"
  then have "j \<le> ilog2 a" by simp
  then have "(2::rat) powi j \<le> 2 powi (ilog2 a)" by (rule power_int_increasing) simp
  with ilog2_bounds(1)[OF a(1)] a(2) show False by simp
qed

lemma ilog2_ge: "0 < a \<Longrightarrow> 2 powi j \<le> a \<Longrightarrow> j \<le> ilog2 a"
proof (rule ccontr)
  assume a: "0 < a" "2 powi j \<le> a" and "\<not> j \<le> ilog2 a"
  then have "ilog2 a + 1 \<le> j" by simp
  then have "(2::rat) powi (ilog2 a + 1) \<le> 2 powi j" by (rule power_int_increasing) simp
  with ilog2_bounds(2)[OF a(1)] a(2) show False by simp
qed

lemma ilog2_mono: "0 < p \<Longrightarrow> p \<le> q \<Longrightarrow> ilog2 p \<le> ilog2 q"
  using ilog2_ge[of q "ilog2 p"] ilog2_bounds(1)[of p] by simp

subsection \<open>Rounding is monotone and exact on binary64 values\<close>

lemma round_half_even_of_int: "round_half_even (of_int n) = n"
  by (simp add: round_half_even_def)

lemma round_half_even_floor: "\<lfloor>q\<rfloor> \<le> round_half_even q" "round_half_even q \<le> \<lfloor>q\<rfloor> + 1"
  by (simp_all add: round_half_even_def Let_def)

lemma round_half_even_ge:
  assumes "of_int n \<le> q"
  shows "n \<le> round_half_even q"
proof -
  from assms have "n \<le> \<lfloor>q\<rfloor>" by (simp add: le_floor_iff)
  with round_half_even_floor(1)[of q] show ?thesis by linarith
qed

lemma round_half_even_le:
  assumes "q \<le> of_int n"
  shows "round_half_even q \<le> n"
proof (cases "q = of_int n")
  case True
  then show ?thesis by (simp add: round_half_even_of_int)
next
  case False
  with assms have "q < of_int n" by simp
  then have "\<lfloor>q\<rfloor> < n" by (simp add: floor_less_iff)
  with round_half_even_floor(2)[of q] show ?thesis by simp
qed

lemma round_half_even_mono:
  assumes "p \<le> q"
  shows "round_half_even p \<le> round_half_even q"
proof (cases "\<lfloor>p\<rfloor> = \<lfloor>q\<rfloor>")
  case True
  with assms show ?thesis by (simp add: round_half_even_def Let_def)
next
  case False
  with assms have "\<lfloor>p\<rfloor> < \<lfloor>q\<rfloor>" using floor_mono[OF assms] by simp
  with round_half_even_floor(2)[of p] round_half_even_floor(1)[of q] show ?thesis by simp
qed

lemma exponent_mono: "0 < p \<Longrightarrow> p \<le> q \<Longrightarrow> exponent p \<le> exponent q"
  using ilog2_mono[of p q] by (simp add: exponent_def)

text \<open>A multiple of the spacing at \<open>a\<close> bounds the rounded value as it bounds \<open>a\<close>.\<close>

lemma rnd_abs_le_grid:
  assumes "a \<le> of_int m * 2 powi exponent a"
  shows "rnd_abs a \<le> of_int m * 2 powi exponent a"
proof -
  have pos: "(0::rat) < 2 powi exponent a" by simp
  from assms have "a / 2 powi exponent a \<le> of_int m" using pos by (simp add: field_simps)
  then have "round_half_even (a / 2 powi exponent a) \<le> m" by (rule round_half_even_le)
  then have "(of_int (round_half_even (a / 2 powi exponent a)) :: rat) \<le> of_int m"
    by (simp only: of_int_le_iff)
  then show ?thesis using pos by (simp add: rnd_abs_def Let_def)
qed

lemma rnd_abs_ge_grid:
  assumes "of_int m * 2 powi exponent a \<le> a"
  shows "of_int m * 2 powi exponent a \<le> rnd_abs a"
proof -
  have pos: "(0::rat) < 2 powi exponent a" by simp
  from assms have "of_int m \<le> a / 2 powi exponent a" using pos by (simp add: field_simps)
  then have "m \<le> round_half_even (a / 2 powi exponent a)" by (rule round_half_even_ge)
  then have "(of_int m :: rat) \<le> of_int (round_half_even (a / 2 powi exponent a))"
    by (simp only: of_int_le_iff)
  then show ?thesis using pos by (simp add: rnd_abs_def Let_def)
qed

lemma pow_grid: "e \<le> j \<Longrightarrow> (2::rat) powi j = of_int (2 ^ nat (j - e)) * 2 powi e"
proof -
  assume "e \<le> j"
  have "(2::rat) powi j = 2 powi ((j - e) + e)" by simp
  also have "\<dots> = 2 powi (j - e) * 2 powi e" by (rule power_int_add) simp
  also have "(2::rat) powi (j - e) = of_int (2 ^ nat (j - e))"
    using \<open>e \<le> j\<close> by (simp add: power_int_nonneg_exp)
  finally show ?thesis .
qed

lemma rnd_abs_nonneg: "0 < a \<Longrightarrow> 0 \<le> rnd_abs a"
  using rnd_abs_ge_grid[of 0 a] by simp

lemma rnd_abs_mono:
  assumes "0 < p" "p \<le> q"
  shows "rnd_abs p \<le> rnd_abs q"
proof (cases "exponent p = exponent q")
  case True
  have "p / 2 powi exponent q \<le> q / 2 powi exponent q"
    using assms by (simp add: divide_right_mono)
  then have "round_half_even (p / 2 powi exponent q) \<le> round_half_even (q / 2 powi exponent q)"
    by (rule round_half_even_mono)
  then have "(of_int (round_half_even (p / 2 powi exponent q)) :: rat)
      \<le> of_int (round_half_even (q / 2 powi exponent q))"
    by (simp only: of_int_le_iff)
  then show ?thesis by (simp add: rnd_abs_def Let_def True mult_right_mono)
next
  case False
  define j where "j = ilog2 q"
  have qpos: "0 < q" using assms by simp
  from False exponent_mono[OF assms] have lt: "exponent p < exponent q" by simp
  then have eq: "exponent q = j - 52" unfolding exponent_def j_def by linarith
  have "ilog2 p - 52 \<le> exponent p" by (simp add: exponent_def)
  with lt eq have "ilog2 p + 1 \<le> j" by simp
  then have "(2::rat) powi (ilog2 p + 1) \<le> 2 powi j" by (rule power_int_increasing) simp
  with ilog2_bounds(2)[OF assms(1)] have pj: "p \<le> 2 powi j" by simp
  have qj: "2 powi j \<le> q" using ilog2_bounds(1)[OF qpos] by (simp add: j_def)
  have ep: "exponent p \<le> j" using lt eq by simp
  have eq': "exponent q \<le> j" using eq by simp
  have "rnd_abs p \<le> 2 powi j"
    using rnd_abs_le_grid[of p "2 ^ nat (j - exponent p)"] pj pow_grid[OF ep] by simp
  moreover have "2 powi j \<le> rnd_abs q"
    using rnd_abs_ge_grid[of "2 ^ nat (j - exponent q)" q] qj pow_grid[OF eq'] by simp
  ultimately show ?thesis by simp
qed

lemma rnd_mono:
  assumes "p \<le> q"
  shows "rnd p \<le> rnd q"
proof -
  consider "0 < p" | "q < 0" | "p \<le> 0" "0 \<le> q" using assms by linarith
  then show ?thesis
  proof cases
    case 1
    then show ?thesis using assms rnd_abs_mono[of p q] by (simp add: rnd_def)
  next
    case 2
    then have "0 < - q" "- q \<le> - p" using assms by simp_all
    from rnd_abs_mono[OF this] show ?thesis using 2 assms by (simp add: rnd_def)
  next
    case 3
    have "rnd p \<le> 0" using 3(1) rnd_abs_nonneg[of "- p"] by (simp add: rnd_def)
    moreover have "0 \<le> rnd q" using 3(2) rnd_abs_nonneg[of q] by (simp add: rnd_def)
    ultimately show ?thesis by simp
  qed
qed

lemma rnd_abs_exact:
  assumes "0 < a" "a = of_int m * 2 powi e" "m < 2 ^ 53" "- 1074 \<le> e"
  shows "rnd_abs a = a"
proof -
  have "(of_int m :: rat) < of_int (2 ^ 53)" using assms(3) by (simp only: of_int_less_iff)
  then have "a < 2 powi 53 * 2 powi e" using assms(2) by simp
  also have "\<dots> = 2 powi (53 + e)" by (rule power_int_add[symmetric]) simp
  finally have "ilog2 a < 53 + e" using assms(1) by (intro ilog2_less)
  then have le: "exponent a \<le> e" using assms(4) by (simp add: exponent_def)
  have "(2::rat) powi e = of_int (2 ^ nat (e - exponent a)) * 2 powi exponent a"
    using le by (rule pow_grid)
  then have grid: "a = of_int (m * 2 ^ nat (e - exponent a)) * 2 powi exponent a"
    using assms(2) by simp
  have "rnd_abs a \<le> a" using rnd_abs_le_grid[of a "m * 2 ^ nat (e - exponent a)"] grid by simp
  moreover have "a \<le> rnd_abs a" using rnd_abs_ge_grid[of "m * 2 ^ nat (e - exponent a)" a] grid by simp
  ultimately show ?thesis by simp
qed

lemma rnd_exact:
  assumes "q = of_int m * 2 powi e" "\<bar>m\<bar> < 2 ^ 53" "- 1074 \<le> e"
  shows "rnd q = q"
proof -
  have pos: "(0::rat) < 2 powi e" by simp
  consider "q = 0" | "0 < q" | "q < 0" by linarith
  then show ?thesis
  proof cases
    case 1
    then show ?thesis by (simp add: rnd_def)
  next
    case 2
    then have "m < 2 ^ 53" using assms(2) by simp
    from rnd_abs_exact[OF 2 assms(1) this assms(3)] 2 show ?thesis by (simp add: rnd_def)
  next
    case 3
    then have "0 < - q" by simp
    moreover have "- q = of_int (- m) * 2 powi e" using assms(1) by simp
    moreover have "- m < 2 ^ 53" using assms(2) by simp
    ultimately have "rnd_abs (- q) = - q" using assms(3) by (rule rnd_abs_exact)
    with 3 show ?thesis by (simp add: rnd_def)
  qed
qed

lemma rnd_of_int: "\<bar>n\<bar> < 2 ^ 53 \<Longrightarrow> rnd (of_int n) = of_int n"
  using rnd_exact[of "of_int n" n 0] by simp

subsection \<open>The Number value, and the normalisation on integer pixels\<close>

lemma fl_finite:
  assumes "- (2 ^ 1024) < rnd q" "rnd q < 2 ^ 1024"
  shows "fl q = Fin (rnd q)"
  using assms by (simp add: fl_def Let_def)

lemma fl_between:
  assumes "lo \<le> q" "q \<le> hi" "rnd lo = lo" "rnd hi = hi" "- (2 ^ 1024) < lo" "hi < 2 ^ 1024"
  shows "fl q = Fin (rnd q) \<and> lo \<le> rnd q \<and> rnd q \<le> hi"
proof -
  have lo: "lo \<le> rnd q" using rnd_mono[OF assms(1)] assms(3) by simp
  have hi: "rnd q \<le> hi" using rnd_mono[OF assms(2)] assms(4) by simp
  have "fl q = Fin (rnd q)" using lo hi assms(5,6) by (intro fl_finite) simp_all
  with lo hi show ?thesis by simp
qed

lemma pow53_less_pow1024: "(2::rat) ^ 53 < 2 ^ 1024"
  by (rule power_strict_increasing) simp_all

lemma fl_of_int:
  assumes "\<bar>n\<bar> < 2 ^ 53"
  shows "fl (of_int n) = Fin (of_int n)"
proof -
  have "\<bar>of_int n :: rat\<bar> < of_int (2 ^ 53)" using assms by (simp only: of_int_abs[symmetric] of_int_less_iff)
  then have "\<bar>of_int n :: rat\<bar> < 2 ^ 1024" using pow53_less_pow1024 by simp
  then show ?thesis using rnd_of_int[OF assms] by (simp add: fl_def Let_def abs_less_iff)
qed

lemma rnd_0: "rnd 0 = 0"
  by (simp add: rnd_def)

lemma rnd_1: "rnd 1 = 1"
  using rnd_of_int[of 1] by simp

lemma rnd_65535: "rnd 65535 = 65535"
  using rnd_of_int[of 65535] by simp

lemma rnd_32767: "rnd 32767 = 32767"
  using rnd_of_int[of 32767] by simp

lemma rnd_m32768: "rnd (- 32768) = - 32768"
  using rnd_of_int[of "- 32768"] by simp

lemma fl_0: "fl 0 = Fin 0"
  using fl_of_int[of 0] by simp

lemma fl_1: "fl 1 = Fin 1"
  using fl_of_int[of 1] by simp

lemma fl_65535: "fl 65535 = Fin 65535"
  using fl_of_int[of 65535] by simp

lemma fl_32767: "fl 32767 = Fin 32767"
  using fl_of_int[of 32767] by simp

lemma fl_m32768: "fl (- 32768) = Fin (- 32768)"
  using fl_of_int[of "- 32768"] by simp

lemma js_sub_0: "\<bar>n\<bar> < 2 ^ 53 \<Longrightarrow> js_sub (Fin (of_int n)) (Fin 0) = Fin (of_int n)"
  by (simp add: js_sub_def fl_of_int)

lemma range_width: "js_sub (Fin 32767) (Fin (- 32768)) = Fin 65535"
  by (simp add: js_sub_def fl_65535)

text \<open>The chain of rounded operations after the division.\<close>

lemma scale_range:
  assumes "0 \<le> r" "r \<le> 1"
  shows "\<exists>n. Math_round (js_add (js_mul (Fin r) (Fin 65535)) (Fin (- 32768))) = Fin (of_int n)
           \<and> - 32768 \<le> n \<and> n \<le> 32767"
proof -
  have bounds: "(65535::rat) < 2 ^ 1024" "(32767::rat) < 2 ^ 1024" "- (2 ^ 1024) < (0::rat)"
    "- (2 ^ 1024) < (- 32768::rat)"
    using pow53_less_pow1024 by simp_all
  define r2 where "r2 = rnd (r * 65535)"
  have "0 \<le> r * 65535" "r * 65535 \<le> 65535" using assms by simp_all
  from fl_between[OF this rnd_0 rnd_65535 bounds(3) bounds(1)]
  have m: "js_mul (Fin r) (Fin 65535) = Fin r2" and r2: "0 \<le> r2" "r2 \<le> 65535"
    by (simp_all add: r2_def)
  define r3 where "r3 = rnd (r2 + - 32768)"
  have "- 32768 \<le> r2 + - 32768" "r2 + - 32768 \<le> 32767" using r2 by simp_all
  from fl_between[OF this rnd_m32768 rnd_32767 bounds(4) bounds(2)]
  have a: "js_add (Fin r2) (Fin (- 32768)) = Fin r3" and r3: "- 32768 \<le> r3" "r3 \<le> 32767"
    by (simp_all add: r3_def)
  have "of_int (- 32768) \<le> r3 + 1 / 2" using r3 by simp
  then have lo: "- 32768 \<le> \<lfloor>r3 + 1 / 2\<rfloor>" by (simp only: le_floor_iff)
  have "r3 + 1 / 2 < of_int 32768" using r3 by simp
  then have "\<lfloor>r3 + 1 / 2\<rfloor> < 32768" by (simp only: floor_less_iff)
  then have hi: "\<lfloor>r3 + 1 / 2\<rfloor> \<le> 32767" by simp
  have "Math_round (js_add (js_mul (Fin r) (Fin 65535)) (Fin (- 32768)))
          = Fin (of_int \<lfloor>r3 + 1 / 2\<rfloor>)"
    by (simp only: m a Math_round.simps)
  with lo hi show ?thesis by blast
qed

lemma translate_in_range:
  assumes "0 \<le> x" "x \<le> w" "0 < w" "w < 2 ^ 53"
  shows "\<exists>n. translate (Fin (of_int x)) (Fin 0) (Fin (of_int w)) (Fin (- 32768)) (Fin 32767)
               = Fin (of_int n) \<and> - 32768 \<le> n \<and> n \<le> 32767"
proof -
  have ax: "\<bar>x\<bar> < 2 ^ 53" and aw: "\<bar>w\<bar> < 2 ^ 53" using assms by simp_all
  have bounds: "(1::rat) < 2 ^ 1024" "- (2 ^ 1024) < (0::rat)" using pow53_less_pow1024 by simp_all
  have "(0::rat) \<le> of_int x / of_int w" "(of_int x :: rat) / of_int w \<le> 1"
    using assms by simp_all
  from fl_between[OF this rnd_0 rnd_1 bounds(2) bounds(1)]
  have d: "fl (of_int x / of_int w) = Fin (rnd (of_int x / of_int w))"
    and r: "0 \<le> rnd (of_int x / of_int w)" "rnd (of_int x / of_int w) \<le> 1"
    by simp_all
  have "js_div (Fin (of_int x)) (Fin (of_int w)) = Fin (rnd (of_int x / of_int w))"
    using assms(3) d by simp
  then show ?thesis
    using scale_range[OF r] by (simp add: translate_def js_sub_0[OF ax] js_sub_0[OF aw] range_width)
qed

lemma floor_bottom: "\<lfloor>- ((65535::rat) / 2)\<rfloor> = - 32768"
  by (simp add: floor_eq_iff)

lemma floor_top: "\<lfloor>(65535::rat) / 2\<rfloor> = 32767"
  by (simp add: floor_eq_iff)

lemma translate_zero:
  assumes "0 < w" "w < 2 ^ 53"
  shows "translate (Fin 0) (Fin 0) (Fin (of_int w)) (Fin (- 32768)) (Fin 32767) = Fin (- 32768)"
proof -
  have aw: "\<bar>w\<bar> < 2 ^ 53" using assms by simp
  have "js_sub (Fin 0) (Fin 0) = Fin 0" using js_sub_0[of 0] by simp
  moreover have "js_div (Fin 0) (Fin (of_int w)) = Fin 0" using assms by (simp add: fl_0)
  ultimately show ?thesis
    by (simp add: translate_def js_sub_0[OF aw] range_width fl_0 fl_m32768 floor_bottom)
qed

lemma translate_full:
  assumes "0 < w" "w < 2 ^ 53"
  shows "translate (Fin (of_int w)) (Fin 0) (Fin (of_int w)) (Fin (- 32768)) (Fin 32767) = Fin 32767"
proof -
  have aw: "\<bar>w\<bar> < 2 ^ 53" using assms by simp
  have "js_div (Fin (of_int w)) (Fin (of_int w)) = Fin 1" using assms by (simp add: fl_1)
  then show ?thesis
    by (simp add: translate_def js_sub_0[OF aw] range_width fl_65535 fl_32767 floor_top)
qed

subsection \<open>Values that are computed without rounding error\<close>

lemma fl_exact:
  assumes "q = of_int m * 2 powi e" "\<bar>m\<bar> < 2 ^ 53" "- 1074 \<le> e" "e \<le> 971"
  shows "fl q = Fin q"
proof -
  have r: "rnd q = q" using assms(1-3) by (rule rnd_exact)
  define A :: rat where "A = of_int \<bar>m\<bar>"
  define B :: rat where "B = 2 powi e"
  define C :: rat where "C = 2 powi 53"
  define D :: rat where "D = 2 powi 971"
  have B: "0 < B" by (simp add: B_def)
  have A: "0 \<le> A" by (simp add: A_def)
  have q: "\<bar>q\<bar> = A * B" using B by (simp add: assms(1) abs_mult A_def B_def)
  have "A < of_int (2 ^ 53)" unfolding A_def using assms(2) by (simp only: of_int_less_iff)
  then have AC: "A < C" by (simp add: C_def)
  have BD: "B \<le> D" unfolding B_def D_def using assms(4) by (intro power_int_increasing) simp_all
  have "A * B < C * D" using AC BD A B by (rule mult_less_le_imp_less)
  also have "C * D = 2 powi (53 + 971)" unfolding C_def D_def by (rule power_int_add[symmetric]) simp
  finally have "\<bar>q\<bar> < 2 ^ 1024" by (simp add: q)
  then show ?thesis using r by (simp add: fl_def Let_def abs_less_iff)
qed

lemma fl_quarters:
  "fl (5 / 4) = Fin (5 / 4)"
  "fl (327675 / 4) = Fin (327675 / 4)"
  "fl (196603 / 4) = Fin (196603 / 4)"
  using fl_exact[of "5 / 4" 5 "- 2"] fl_exact[of "327675 / 4" 327675 "- 2"]
    fl_exact[of "196603 / 4" 196603 "- 2"]
  by simp_all

lemma fl_halves:
  "fl (1 / 2) = Fin (1 / 2)"
  "fl (65535 / 2) = Fin (65535 / 2)"
  "fl (- (1 / 2)) = Fin (- (1 / 2))"
  using fl_exact[of "1 / 2" 1 "- 1"] fl_exact[of "65535 / 2" 65535 "- 1"]
    fl_exact[of "- (1 / 2)" "- 1" "- 1"]
  by simp_all

lemma fl_ints:
  "fl 5 = Fin 5" "fl 400 = Fin 400" "fl 300 = Fin 300" "fl 600 = Fin 600"
  "fl 800 = Fin 800" "fl 1000 = Fin 1000" "fl 1023 = Fin 1023" "fl 1024 = Fin 1024"
  using fl_of_int[of 5] fl_of_int[of 400] fl_of_int[of 300] fl_of_int[of 600]
    fl_of_int[of 800] fl_of_int[of 1000] fl_of_int[of 1023] fl_of_int[of 1024]
  by simp_all

lemma fl_1024ths:
  "fl (1023 / 1024) = Fin (1023 / 1024)"
  "fl (67042305 / 1024) = Fin (67042305 / 1024)"
  "fl (33487873 / 1024) = Fin (33487873 / 1024)"
  using fl_exact[of "1023 / 1024" 1023 "- 10"] fl_exact[of "67042305 / 1024" 67042305 "- 10"]
    fl_exact[of "33487873 / 1024" 33487873 "- 10"]
  by simp_all

lemma translate_1000_800:
  "translate (Fin 1000) (Fin 0) (Fin 800) (Fin (- 32768)) (Fin 32767) = Fin 49151"
  by (simp add: translate_def js_sub_def fl_ints fl_65535 fl_quarters floor_eq_iff)

lemma translate_half:
  "translate (Fin 400) (Fin 0) (Fin 800) (Fin (- 32768)) (Fin 32767) = Fin 0"
  "translate (Fin 300) (Fin 0) (Fin 600) (Fin (- 32768)) (Fin 32767) = Fin 0"
  by (simp_all add: translate_def js_sub_def fl_ints fl_65535 fl_halves)

lemma translate_1023_1024:
  "translate (Fin 1023) (Fin 0) (Fin 1024) (Fin (- 32768)) (Fin 32767) = Fin 32703"
  by (simp add: translate_def js_sub_def fl_ints fl_65535 fl_1024ths floor_eq_iff)

lemma translate_by_zero:
  "translate (Fin (of_int v)) (Fin 0) (Fin 0) (Fin (- 32768)) (Fin 32767) =
     (if v = 0 then NaN else if 0 < v then PosInf else NegInf)"
proof -
  have z: "js_sub (Fin 0) (Fin 0) = Fin 0" by (simp add: js_sub_def fl_0)
  have s: "js_sub (Fin (of_int v)) (Fin 0) = fl (of_int v)" by (simp add: js_sub_def)
  consider "v = 0" | "0 < v" | "v < 0" by linarith
  then show ?thesis
  proof cases
    case 1
    then show ?thesis by (simp add: translate_def z fl_0 js_sub_def)
  next
    case 2
    then have "(1::rat) \<le> of_int v" by simp
    from rnd_mono[OF this] have "1 \<le> rnd (of_int v)" by (simp add: rnd_1)
    then have "js_div (fl (of_int v)) (Fin 0) = PosInf" by (simp add: fl_def Let_def)
    then show ?thesis using 2 by (simp add: translate_def z s range_width)
  next
    case 3
    then have "(of_int v :: rat) \<le> - 1" by simp
    from rnd_mono[OF this] have "rnd (of_int v) \<le> - 1" using rnd_of_int[of "- 1"] by simp
    then have "js_div (fl (of_int v)) (Fin 0) = NegInf" by (simp add: fl_def Let_def)
    then show ?thesis using 3 by (simp add: translate_def z s range_width)
  qed
qed

section \<open>Properties of the flush\<close>

lemma sendMove_eq:
  "sendMove el s =
     (if differs (current_pos s) (sent_pos s)
      then (s\<lparr>sent_pos := current_pos s\<rparr>,
            Debug_move (to_of el (current_pos s)) #
            (case ws s of None \<Rightarrow> [] | Some w \<Rightarrow> [Send w (JSON_stringify (Mouse_move (to_of el (current_pos s))))]))
      else (s, []))"
  by (simp add: sendMove_def differs_def to_of_def Let_def split: option.split)

lemma sent_append: "sent (xs @ ys) = sent xs @ sent ys"
  by (induction xs rule: sent.induct) simp_all

lemma sent_sendMove:
  "sent (snd (sendMove el s)) =
     (if ws s \<noteq> None \<and> differs (current_pos s) (sent_pos s)
      then [JSON_stringify (Mouse_move (to_of el (current_pos s)))] else [])"
  by (simp add: sendMove_eq split: option.split)

lemma sendMove_state:
  "fst (sendMove el s) =
     (if differs (current_pos s) (sent_pos s) then s\<lparr>sent_pos := current_pos s\<rparr> else s)"
  by (simp add: sendMove_eq)

lemma js_strict_neq_same: "a \<noteq> NaN \<Longrightarrow> \<not> js_strict_neq a a"
  by (cases a) simp_all

lemma differs_same: "defined_pos p \<Longrightarrow> \<not> differs p p"
  by (simp add: differs_def defined_pos_def js_strict_neq_same)

lemma flushed: "defined_pos (current_pos s) \<Longrightarrow>
  \<not> differs (current_pos (fst (sendMove el s))) (sent_pos (fst (sendMove el s)))"
  by (simp add: sendMove_state differs_same)

subsection \<open>The handlers and the event loop\<close>

lemma sendMove_ws: "ws (fst (sendMove el s)) = ws s"
  by (simp add: sendMove_state)

lemma sendMove_current: "current_pos (fst (sendMove el s)) = current_pos s"
  by (simp add: sendMove_state)

lemma buttonHandler_eq:
  "buttonHandler el ev st s =
     (if button ev = 0 \<or> button ev = 2
      then (fst (sendMove el s),
            [PreventDefault, Debug_button st (if button ev = 0 then ''left'' else ''right'')] @
            snd (sendMove el s) @
            (case ws s of None \<Rightarrow> []
             | Some w \<Rightarrow> [Send w (JSON_stringify (Mouse_button (if button ev = 0 then ''left'' else ''right'') st))]))
      else (s, []))"
  using sendMove_ws[of el s]
  by (cases "sendMove el s") (simp add: buttonHandler_def Let_def)

lemma touchHandler_start:
  assumes "touches ev = t # ts"
  shows "touchHandler el ev True s =
     Inr (fst (sendMove el (s\<lparr>current_pos := touch_pos t\<rparr>)),
          snd (sendMove el (s\<lparr>current_pos := touch_pos t\<rparr>)) @ [Debug_button True ''left''] @
          (case ws s of None \<Rightarrow> [] | Some w \<Rightarrow> [Send w (JSON_stringify (Mouse_button ''left'' True))]) @
          [StopPropagation, PreventDefault])"
  using assms sendMove_ws[of el "s\<lparr>current_pos := touch_pos t\<rparr>"]
  by (cases "sendMove el (s\<lparr>current_pos := touch_pos t\<rparr>)")
     (simp add: touchHandler_def touch_pos_def Let_def)

lemma touchHandler_end:
  "touchHandler el ev False s =
     Inr (s, [Debug_button False ''left''] @
             (case ws s of None \<Rightarrow> [] | Some w \<Rightarrow> [Send w (JSON_stringify (Mouse_button ''left'' False))]) @
             [StopPropagation, PreventDefault])"
  by (simp add: touchHandler_def Let_def)

lemma touchHandler_error: "touches ev = [] \<Longrightarrow> touchHandler el ev True s = Inl TypeError"
  by (simp add: touchHandler_def)

lemma sent_button:
  "sent (snd (buttonHandler el ev st s)) =
     (if button ev = 0 \<or> button ev = 2
      then sent (snd (sendMove el s)) @
           (case ws s of None \<Rightarrow> []
            | Some w \<Rightarrow> [JSON_stringify (Mouse_button (if button ev = 0 then ''left'' else ''right'') st)])
      else [])"
  by (simp add: buttonHandler_eq sent_append split: option.split)

lemma sent_wheel:
  "sent (snd (wheelHandler ev s)) =
     (case ws s of None \<Rightarrow> [] | Some w \<Rightarrow> [JSON_stringify (Mouse_wheel \<lparr>px = deltaX ev, py = deltaY ev\<rparr>)])"
  by (simp add: wheelHandler_def Let_def sent_append split: option.split)

lemma sent_touch_end:
  "touchHandler el ev False s = Inr (s', out) \<Longrightarrow>
     s' = s \<and> sent out = (case ws s of None \<Rightarrow> [] | Some w \<Rightarrow> [JSON_stringify (Mouse_button ''left'' False)])"
  by (auto simp add: touchHandler_end sent_append split: option.split)

lemma run_Cons:
  "fst (run (e # es) s) = fst (run es (fst (dispatch e s)))"
  "snd (run (e # es) s) = snd (dispatch e s) @ snd (run es (fst (dispatch e s)))"
  by (simp_all add: Let_def split_beta)

lemma run_append:
  "run (xs @ ys) s = (let (s1, out1) = run xs s; (s2, out2) = run ys s1 in (s2, out1 @ out2))"
  by (induction xs arbitrary: s) (simp_all add: Let_def split: prod.split)

lemma run_moves: "run (map Mousemove evs) s = (fold moveHandler evs s, [])"
  by (induction evs arbitrary: s) simp_all

lemma fold_moveHandler:
  "ws (fold moveHandler evs s) = ws s"
  "sent_pos (fold moveHandler evs s) = sent_pos s"
  "evs \<noteq> [] \<Longrightarrow> current_pos (fold moveHandler evs s) = current_pos (moveHandler (last evs) s)"
proof -
  show "ws (fold moveHandler evs s) = ws s"
    by (induction evs arbitrary: s) (simp_all add: moveHandler_def Let_def)
  show "sent_pos (fold moveHandler evs s) = sent_pos s"
    by (induction evs arbitrary: s) (simp_all add: moveHandler_def Let_def)
  show "evs \<noteq> [] \<Longrightarrow> current_pos (fold moveHandler evs s) = current_pos (moveHandler (last evs) s)"
  proof (induction evs arbitrary: s)
    case Nil
    then show ?case by simp
  next
    case (Cons e es)
    then show ?case by (cases es) (simp_all add: moveHandler_def Let_def)
  qed
qed

text \<open>Once the position has been flushed, no event other than a motion sends a move.\<close>

lemma dispatch_flushed:
  assumes "keeps_pointer e" "\<not> differs (current_pos s) (sent_pos s)"
  shows "\<not> differs (current_pos (fst (dispatch e s))) (sent_pos (fst (dispatch e s)))
         \<and> filter is_move (sent (snd (dispatch e s))) = []"
proof (cases e)
  case (Tick el)
  then show ?thesis using assms by (simp add: sendMove_eq)
next
  case (Mousedown el ev)
  then show ?thesis using assms by (simp add: buttonHandler_eq sendMove_eq split: option.split)
next
  case (Mouseup el ev)
  then show ?thesis using assms by (simp add: buttonHandler_eq sendMove_eq split: option.split)
next
  case (Wheel ev)
  then show ?thesis using assms by (simp add: wheelHandler_def Let_def sent_append split: option.split)
next
  case (Touchend el ev)
  then show ?thesis using assms
    by (simp add: touchHandler_end uncaught_def sent_append split: option.split)
qed (use assms in \<open>simp_all add: hoverStream_def leaveStream_def updateLeds_def setSocket_def Let_def\<close>)

lemma run_flushed:
  assumes "list_all keeps_pointer evs" "\<not> differs (current_pos s) (sent_pos s)"
  shows "filter is_move (sent (snd (run evs s))) = []"
  using assms
proof (induction evs arbitrary: s)
  case Nil
  then show ?case by simp
next
  case (Cons e es)
  from Cons.prems have e: "keeps_pointer e" and es: "list_all keeps_pointer es" by simp_all
  from dispatch_flushed[OF e Cons.prems(2)]
  have 1: "\<not> differs (current_pos (fst (dispatch e s))) (sent_pos (fst (dispatch e s)))"
    and 2: "filter is_move (sent (snd (dispatch e s))) = []" by simp_all
  from Cons.IH[OF es 1] 2 show ?case
    by (simp add: run_Cons sent_append del: run.simps)
qed

text \<open>While the channel is absent, nothing is sent.\<close>

lemma dispatch_offline:
  assumes "keeps_offline e" "ws s = None"
  shows "ws (fst (dispatch e s)) = None \<and> sent (snd (dispatch e s)) = []"
proof (cases e)
  case (Touchstart el ev)
  then show ?thesis using assms
    by (cases "touches ev")
       (simp_all add: touchHandler_error touchHandler_start uncaught_def sent_append
          sent_sendMove sendMove_ws)
next
  case (Touchend el ev)
  then show ?thesis using assms by (simp add: touchHandler_end uncaught_def)
next
  case (SetSocket w)
  then show ?thesis using assms by (cases w) (simp_all add: setSocket_def)
qed (use assms in \<open>simp_all add: sent_sendMove sendMove_ws sent_button buttonHandler_eq
      sent_wheel wheelHandler_def hoverStream_def leaveStream_def updateLeds_def moveHandler_def
      Let_def\<close>)

lemma run_offline:
  assumes "list_all keeps_offline evs" "ws s = None"
  shows "ws (fst (run evs s)) = None \<and> sent (snd (run evs s)) = []"
  using assms
proof (induction evs arbitrary: s)
  case Nil
  then show ?case by simp
next
  case (Cons e es)
  from Cons.prems have e: "keeps_offline e" and es: "list_all keeps_offline es" by simp_all
  from dispatch_offline[OF e Cons.prems(2)]
  have 1: "ws (fst (dispatch e s)) = None" and 2: "sent (snd (dispatch e s)) = []" by simp_all
  from Cons.IH[OF es 1] 2 show ?case
    by (simp add: run_Cons sent_append del: run.simps)
qed

text \<open>Integers below \<open>2 ^ 53\<close> are Number values, and \<^verbatim>\<open>Math.round\<close> leaves them alone.\<close>

lemma fl_numeral: "(numeral k :: int) < 2 ^ 53 \<Longrightarrow> fl (numeral k) = Fin (numeral k)"
  using fl_of_int[of "numeral k"] by simp

lemma Math_round_numeral: "Math_round (Fin (numeral k)) = Fin (numeral k)"
  by (simp add: floor_eq_iff)

section \<open>The error of the normalisation\<close>

subsection \<open>The error of one rounding\<close>

lemma round_half_even_error: "\<bar>of_int (round_half_even q) - q\<bar> \<le> 1 / 2"
proof -
  have "of_int \<lfloor>q\<rfloor> \<le> q" "q < of_int \<lfloor>q\<rfloor> + 1" by linarith+
  then show ?thesis by (auto simp add: round_half_even_def Let_def abs_le_iff)
qed

lemma rnd_abs_error:
  "\<bar>rnd_abs a - a\<bar> \<le> 2 powi exponent a / 2"
proof -
  define P :: rat where "P = 2 powi exponent a"
  have P: "0 < P" by (simp add: P_def)
  have "rnd_abs a - a = (of_int (round_half_even (a / P)) - a / P) * P"
    using P by (simp add: rnd_abs_def Let_def P_def algebra_simps)
  then have "\<bar>rnd_abs a - a\<bar> = \<bar>of_int (round_half_even (a / P)) - a / P\<bar> * P"
    using P by (simp add: abs_mult)
  also have "\<dots> \<le> 1 / 2 * P"
    using round_half_even_error[of "a / P"] P by (intro mult_right_mono) simp_all
  finally show ?thesis by (simp add: P_def)
qed

lemma exponent_le:
  assumes "0 < a" "a < 2 powi j" "- 1021 \<le> j"
  shows "exponent a \<le> j - 53"
  using ilog2_less[OF assms(1,2)] assms(3) by (simp add: exponent_def)

lemma rnd_error:
  assumes "\<bar>q\<bar> < 2 powi j" "- 1021 \<le> j"
  shows "\<bar>rnd q - q\<bar> \<le> 2 powi (j - 54)"
proof (cases "q = 0")
  case True
  then show ?thesis by (simp add: rnd_def)
next
  case False
  define a where "a = \<bar>q\<bar>"
  have a: "0 < a" "a < 2 powi j" using False assms(1) by (simp_all add: a_def)
  have "\<bar>rnd q - q\<bar> = \<bar>rnd_abs a - a\<bar>"
    using False by (cases "0 < q") (simp_all add: rnd_def a_def abs_minus_commute)
  also have "\<dots> \<le> 2 powi exponent a / 2" by (rule rnd_abs_error)
  also have "\<dots> \<le> 2 powi (j - 53) / 2"
    using exponent_le[OF a assms(2)] by (simp add: power_int_increasing divide_right_mono)
  also have "\<dots> = 2 powi (j - 54)"
  proof -
    have "(2::rat) powi (j - 53) = 2 powi ((j - 54) + 1)" by simp
    also have "\<dots> = 2 powi (j - 54) * 2 powi 1" by (rule power_int_add) simp
    finally show ?thesis by simp
  qed
  finally show ?thesis .
qed

lemma rnd_error_unit:
  assumes "0 \<le> q" "q \<le> 1"
  shows "\<bar>rnd q - q\<bar> \<le> 1 / 2 ^ 54"
proof (cases "q = 1")
  case True
  then show ?thesis by (simp add: rnd_1)
next
  case False
  with assms have "\<bar>q\<bar> < 2 powi 0" by simp
  from rnd_error[OF this] show ?thesis by (simp add: power_int_minus_divide)
qed

lemma rnd_error_16:
  assumes "\<bar>q\<bar> \<le> 65535"
  shows "\<bar>rnd q - q\<bar> \<le> 1 / 2 ^ 38"
proof -
  from assms have "\<bar>q\<bar> < 2 powi 16" by simp
  from rnd_error[OF this] show ?thesis by (simp add: power_int_minus_divide)
qed

subsection \<open>The error of the chain\<close>

text \<open>The rounded chain of \<open>translate\<close> stays within \<open>3 / 2 ^ 38\<close> of the linear map.\<close>

lemma translate_chain:
  assumes "0 \<le> x" "x \<le> w" "0 < w" "w < 2 ^ 53"
  shows "\<exists>r. translate (Fin (of_int x)) (Fin 0) (Fin (of_int w)) (Fin (- 32768)) (Fin 32767)
               = Fin (of_int \<lfloor>r + 1 / 2\<rfloor>)
             \<and> \<bar>r - linear_map x w\<bar> \<le> 3 / 2 ^ 38"
proof -
  have ax: "\<bar>x\<bar> < 2 ^ 53" and aw: "\<bar>w\<bar> < 2 ^ 53" using assms by simp_all
  have bounds: "(1::rat) < 2 ^ 1024" "- (2 ^ 1024) < (0::rat)" "(65535::rat) < 2 ^ 1024"
    "(32767::rat) < 2 ^ 1024" "- (2 ^ 1024) < (- 32768::rat)"
    using pow53_less_pow1024 by simp_all
  define t :: rat where "t = of_int x / of_int w"
  define r1 where "r1 = rnd t"
  define r2 where "r2 = rnd (r1 * 65535)"
  define r3 where "r3 = rnd (r2 + - 32768)"
  define E :: rat where "E = 1 / 2 ^ 38"
  have t: "0 \<le> t" "t \<le> 1" using assms by (simp_all add: t_def)
  from fl_between[OF t rnd_0 rnd_1 bounds(2) bounds(1)]
  have d: "fl t = Fin r1" and r1: "0 \<le> r1" "r1 \<le> 1" by (simp_all add: r1_def)
  have "0 \<le> r1 * 65535" "r1 * 65535 \<le> 65535" using r1 by simp_all
  from fl_between[OF this rnd_0 rnd_65535 bounds(2) bounds(3)]
  have m: "fl (r1 * 65535) = Fin r2" and r2: "0 \<le> r2" "r2 \<le> 65535" by (simp_all add: r2_def)
  have "- 32768 \<le> r2 + - 32768" "r2 + - 32768 \<le> 32767" using r2 by simp_all
  from fl_between[OF this rnd_m32768 rnd_32767 bounds(5) bounds(4)]
  have a: "fl (r2 + - 32768) = Fin r3" by (simp add: r3_def)
  have dv: "js_div (Fin (of_int x)) (Fin (of_int w)) = Fin r1"
    using assms(3) d by (simp add: t_def)
  have tr: "translate (Fin (of_int x)) (Fin 0) (Fin (of_int w)) (Fin (- 32768)) (Fin 32767)
          = Fin (of_int \<lfloor>r3 + 1 / 2\<rfloor>)"
    by (simp only: translate_def js_sub_0[OF ax] js_sub_0[OF aw] range_width dv js_mul.simps m
        js_add.simps a Math_round.simps)
  have e1: "\<bar>r1 - t\<bar> \<le> 1 / 2 ^ 54" unfolding r1_def using t by (rule rnd_error_unit)
  have "\<bar>r1 * 65535\<bar> \<le> 65535" using r1 by simp
  then have e2: "\<bar>r2 - r1 * 65535\<bar> \<le> E" unfolding r2_def E_def by (rule rnd_error_16)
  have "\<bar>r2 + - 32768\<bar> \<le> 65535" using r2 by simp
  then have e3: "\<bar>r3 - (r2 + - 32768)\<bar> \<le> E" unfolding r3_def E_def by (rule rnd_error_16)
  have "r1 * 65535 - t * 65535 = (r1 - t) * 65535" by (rule left_diff_distrib[symmetric])
  then have "\<bar>r1 * 65535 - t * 65535\<bar> = \<bar>r1 - t\<bar> * \<bar>65535\<bar>" by (simp only: abs_mult)
  also have "\<dots> = \<bar>r1 - t\<bar> * 65535" by simp
  also have "\<dots> \<le> 1 / 2 ^ 54 * 65535" using e1 by (intro mult_right_mono) simp_all
  also have "\<dots> \<le> E" by (simp add: E_def)
  finally have e1': "\<bar>r1 * 65535 - t * 65535\<bar> \<le> E" .
  have lm: "linear_map x w = t * 65535 - 32768" by (simp add: linear_map_def t_def)
  have "\<bar>r3 - (t * 65535 - 32768)\<bar> \<le> E + E + E" using e1' e2 e3 by linarith
  moreover have "E + E + E = 3 / 2 ^ 38" by (simp add: E_def)
  ultimately have "\<bar>r3 - linear_map x w\<bar> \<le> 3 / 2 ^ 38" by (simp only: lm)
  with tr show ?thesis by blast
qed

lemma translate_error:
  assumes "0 \<le> x" "x \<le> w" "0 < w" "w < 2 ^ 53"
  shows "\<exists>n. translate (Fin (of_int x)) (Fin 0) (Fin (of_int w)) (Fin (- 32768)) (Fin 32767)
               = Fin (of_int n)
             \<and> \<bar>of_int n - linear_map x w\<bar> \<le> 1 / 2 + 1 / 2 ^ 36
             \<and> (w < 2 ^ 35 \<and> linear_map x w + 1 / 2 \<notin> \<int> \<longrightarrow> n = round (linear_map x w))"
proof -
  define E :: rat where "E = 3 / 2 ^ 38"
  define F :: rat where "F = 1 / 2 ^ 36"
  have EF: "E \<le> F" by (simp add: E_def F_def)
  from translate_chain[OF assms] obtain r where
    tr: "translate (Fin (of_int x)) (Fin 0) (Fin (of_int w)) (Fin (- 32768)) (Fin 32767)
               = Fin (of_int \<lfloor>r + 1 / 2\<rfloor>)"
    and r: "\<bar>r - linear_map x w\<bar> \<le> E" unfolding E_def by blast
  define n where "n = \<lfloor>r + 1 / 2\<rfloor>"
  define s where "s = linear_map x w + 1 / 2"
  have fl: "of_int n \<le> r + 1 / 2" "r + 1 / 2 < of_int n + 1" unfolding n_def by linarith+
  have "\<bar>of_int n - linear_map x w\<bar> \<le> 1 / 2 + F" using fl r EF by linarith
  then have err: "\<bar>of_int n - linear_map x w\<bar> \<le> 1 / 2 + 1 / 2 ^ 36" by (simp only: F_def)
  have exact: "n = round (linear_map x w)" if w35: "w < 2 ^ 35" and nt: "s \<notin> \<int>"
  proof -
    define D where "D = 2 * w"
    define N where "N = 131070 * x - 65535 * w"
    have D: "0 < D" "D < 2 ^ 36" using assms(3) w35 by (simp_all add: D_def)
    have "s * of_int D = (of_int x / of_int w * 65535 - 32768 + 1 / 2) * (2 * of_int w)"
      by (simp add: s_def linear_map_def D_def)
    also have "\<dots> = of_int N"
      using assms(3) by (simp add: N_def field_simps)
    finally have sD: "s * of_int D = of_int N" .
    define k where "k = N - D * \<lfloor>s\<rfloor>"
    define f where "f = s - of_int \<lfloor>s\<rfloor>"
    define G :: rat where "G = 1 / of_int D"
    have "f * of_int D = s * of_int D - of_int \<lfloor>s\<rfloor> * of_int D"
      by (simp only: f_def left_diff_distrib)
    also have "\<dots> = of_int k" by (simp add: sD k_def)
    finally have fk: "f * of_int D = of_int k" .
    have "of_int \<lfloor>s\<rfloor> \<noteq> s"
    proof
      assume "of_int \<lfloor>s\<rfloor> = s"
      then have "s \<in> \<int>" by (metis Ints_of_int)
      with nt show False by simp
    qed
    then have f: "0 < f" "f < 1" unfolding f_def by linarith+
    have Dr: "(0::rat) < of_int D" using D(1) by simp
    have "(of_int D :: rat) < of_int (2 ^ 36)" using D(2) by (simp only: of_int_less_iff)
    then have Dr2: "(of_int D :: rat) < 2 ^ 36" by simp
    have "0 < f * of_int D" using f(1) Dr by simp
    then have "(0::rat) < of_int k" by (simp only: fk)
    then have "1 \<le> k" by simp
    then have "(1::rat) \<le> of_int k" by simp
    then have lo: "1 \<le> f * of_int D" by (simp only: fk)
    have "f * of_int D < 1 * of_int D" using f(2) Dr by (intro mult_strict_right_mono)
    then have "(of_int k :: rat) < of_int D" by (simp only: fk mult_1)
    then have "k + 1 \<le> D" by simp
    then have "(of_int (k + 1) :: rat) \<le> of_int D" by (simp only: of_int_le_iff)
    then have hi: "f * of_int D + 1 \<le> of_int D" by (simp add: fk)
    have GD: "G * of_int D = 1" using Dr by (simp add: G_def)
    have FG: "F < G"
    proof -
      have "F * of_int D < F * 2 ^ 36" using Dr2 by (intro mult_strict_left_mono) (simp_all add: F_def)
      also have "\<dots> = G * of_int D" by (simp add: F_def GD)
      finally show ?thesis using Dr by (simp only: mult_less_cancel_right_pos)
    qed
    have flo: "G \<le> f"
    proof -
      have "G * of_int D \<le> f * of_int D" using lo by (simp only: GD)
      then show ?thesis using Dr by (simp only: mult_le_cancel_right_pos)
    qed
    have fhi: "f + G \<le> 1"
    proof -
      have "(f + G) * of_int D \<le> 1 * of_int D" using hi by (simp add: distrib_right GD)
      then show ?thesis using Dr by (simp only: mult_le_cancel_right_pos)
    qed
    have rs: "\<bar>(r + 1 / 2) - s\<bar> \<le> E" using r by (simp add: s_def)
    have "of_int \<lfloor>s\<rfloor> \<le> r + 1 / 2" "r + 1 / 2 < of_int \<lfloor>s\<rfloor> + 1"
      using rs flo fhi FG EF unfolding f_def by linarith+
    then have "\<lfloor>r + 1 / 2\<rfloor> = \<lfloor>s\<rfloor>" by (simp only: floor_eq_iff)
    then show ?thesis by (simp add: n_def round_def s_def)
  qed
  have "translate (Fin (of_int x)) (Fin 0) (Fin (of_int w)) (Fin (- 32768)) (Fin 32767)
               = Fin (of_int n)" using tr by (simp only: n_def)
  moreover have "w < 2 ^ 35 \<and> linear_map x w + 1 / 2 \<notin> \<int> \<longrightarrow> n = round (linear_map x w)"
    using exact by (simp add: s_def)
  ultimately show ?thesis using err by blast
qed

lemma is_tie_Ints: "is_tie q \<longleftrightarrow> q + 1 / 2 \<in> \<int>"
  unfolding is_tie_def by (metis Ints_of_int Ints_cases floor_of_int)

lemma fl_512ths:
  "fl (511 / 512) = Fin (511 / 512)"
  "fl (33488385 / 512) = Fin (33488385 / 512)"
  "fl (16711169 / 512) = Fin (16711169 / 512)"
  using fl_exact[of "511 / 512" 511 "- 9"] fl_exact[of "33488385 / 512" 33488385 "- 9"]
    fl_exact[of "16711169 / 512" 16711169 "- 9"]
  by simp_all

lemma fl_more_ints:
  "fl 511 = Fin 511" "fl 512 = Fin 512" "fl 2 = Fin 2" "fl 131070 = Fin 131070"
  "fl 98302 = Fin 98302"
  by (simp_all add: fl_numeral)

lemma translate_511_512:
  "translate (Fin 511) (Fin 0) (Fin 512) (Fin (- 32768)) (Fin 32767) = Fin 32639"
  by (simp add: translate_def js_sub_def fl_more_ints fl_65535 fl_512ths floor_eq_iff)

lemma translate_1024_512:
  "translate (Fin 1024) (Fin 0) (Fin 512) (Fin (- 32768)) (Fin 32767) = Fin 98302"
  by (simp add: translate_def js_sub_def fl_ints fl_more_ints fl_65535 floor_eq_iff)

lemma linear_map_ends:
  "0 < w \<Longrightarrow> linear_map 0 w = - 32768"
  "0 < w \<Longrightarrow> linear_map w w = 32767"
  "0 < w \<Longrightarrow> linear_map (w - 1) w = 32767 - 65535 / of_int w"
  by (simp_all add: linear_map_def field_simps)

lemma floor_quarter: "\<lfloor>- ((65535::rat) / 4)\<rfloor> = - 16384"
  by (simp add: floor_eq_iff)

section \<open>The claims\<close>

subsection \<open>Coordinate normalisation\<close>

text \<open>
  C1, as stated: for every value and every viewport extent the normalisation is the linear map
  of \<open>[0, extent)\<close> onto \<open>[-32768, 32767]\<close>. For an extent of 0 the value 5 is normalised to
  \<open>+\<infinity>\<close>; for an extent of 512 the value 1024 is normalised to 98302, outside the range; and
  the last pixel 511 of \<open>[0, 512)\<close> is normalised to 32639, so that the pixels of
  \<open>[0, extent)\<close> do not reach the top of the range.
\<close>

theorem C1_counterexample:
  "translate (Fin 5) (Fin 0) (Fin 0) (Fin (- 32768)) (Fin 32767) = PosInf
   \<and> translate (Fin 1024) (Fin 0) (Fin 512) (Fin (- 32768)) (Fin 32767) = Fin 98302
   \<and> translate (Fin 511) (Fin 0) (Fin 512) (Fin (- 32768)) (Fin 32767) = Fin 32639"
  using translate_by_zero[of 5] by (simp add: translate_1024_512 translate_511_512)

text \<open>
  C1, amended. For every value and every viewport extent, the call
  \<^verbatim>\<open>__translate(value, 0, viewportExtent, -32768, 32767)\<close> computes
  \<^verbatim>\<open>round((value - 0) / (viewportExtent - 0) * (32767 - (-32768)) + (-32768))\<close> in the
  arithmetic of JavaScript, and the position of every move message is made of this value for
  the width and for the height. For integers \<open>0 \<le> value \<le> extent\<close> with
  \<open>0 < extent < 2 ^ 53\<close> the result is an integer within \<open>1 / 2 + 1 / 2 ^ 36\<close> of the linear
  map \<open>value / extent * 65535 - 32768\<close>, which sends \<open>[0, extent]\<close> onto \<open>[-32768, 32767]\<close>:
  0 is normalised to -32768 and the extent itself to 32767. For \<open>extent < 2 ^ 35\<close> the result
  is the linear map rounded to the nearest integer, unless the linear map is half-way between
  two integers.
\<close>

theorem C1_translate_is_linear_map:
  assumes "0 \<le> x" "x \<le> w" "0 < w" "w < 2 ^ 53"
  shows "translate v (Fin 0) viewportExtent (Fin (- 32768)) (Fin 32767)
           = normalize_spec v viewportExtent
       \<and> sent (snd (sendMove el s)) =
           (if ws s \<noteq> None \<and> differs (current_pos s) (sent_pos s)
            then [JSON_stringify (Mouse_move
                    \<lparr>px = normalize_spec (px (current_pos s)) (clientWidth el),
                     py = normalize_spec (py (current_pos s)) (clientHeight el)\<rparr>)]
            else [])
       \<and> (\<exists>n. translate (Fin (of_int x)) (Fin 0) (Fin (of_int w)) (Fin (- 32768)) (Fin 32767)
                = Fin (of_int n)
              \<and> \<bar>of_int n - linear_map x w\<bar> \<le> 1 / 2 + 1 / 2 ^ 36
              \<and> (w < 2 ^ 35 \<and> \<not> is_tie (linear_map x w) \<longrightarrow> n = round (linear_map x w)))
       \<and> translate (Fin 0) (Fin 0) (Fin (of_int w)) (Fin (- 32768)) (Fin 32767) = Fin (- 32768)
       \<and> linear_map 0 w = - 32768
       \<and> translate (Fin (of_int w)) (Fin 0) (Fin (of_int w)) (Fin (- 32768)) (Fin 32767)
           = Fin 32767
       \<and> linear_map w w = 32767"
proof -
  have eq: "\<And>v e. translate v (Fin 0) e (Fin (- 32768)) (Fin 32767) = normalize_spec v e"
    by (simp add: translate_def normalize_spec_def)
  have 1: "sent (snd (sendMove el s)) =
           (if ws s \<noteq> None \<and> differs (current_pos s) (sent_pos s)
            then [JSON_stringify (Mouse_move
                    \<lparr>px = normalize_spec (px (current_pos s)) (clientWidth el),
                     py = normalize_spec (py (current_pos s)) (clientHeight el)\<rparr>)]
            else [])"
    by (simp add: sent_sendMove to_of_def eq)
  have 2: "\<exists>n. translate (Fin (of_int x)) (Fin 0) (Fin (of_int w)) (Fin (- 32768)) (Fin 32767)
                = Fin (of_int n)
              \<and> \<bar>of_int n - linear_map x w\<bar> \<le> 1 / 2 + 1 / 2 ^ 36
              \<and> (w < 2 ^ 35 \<and> \<not> is_tie (linear_map x w) \<longrightarrow> n = round (linear_map x w))"
    using translate_error[OF assms] by (simp only: is_tie_Ints)
  from eq 1 2 translate_zero[OF assms(3,4)] translate_full[OF assms(3,4)]
    linear_map_ends(1,2)[OF assms(3)]
  show ?thesis by blast
qed

theorem C1_translate_is_linear_map_witness:
  "translate (Fin 200) (Fin 0) (Fin 800) (Fin (- 32768)) (Fin 32767)
     = normalize_spec (Fin 200) (Fin 800)
   \<and> translate (Fin 200) (Fin 0) (Fin 800) (Fin (- 32768)) (Fin 32767) = Fin (- 16384)
   \<and> round (linear_map 200 800) = - 16384
   \<and> translate (Fin 0) (Fin 0) (Fin 800) (Fin (- 32768)) (Fin 32767) = Fin (- 32768)
   \<and> translate (Fin 800) (Fin 0) (Fin 800) (Fin (- 32768)) (Fin 32767) = Fin 32767"
  using C1_translate_is_linear_map[of 200 800 "Fin 200" "Fin 800" "stream_image 800 600" Mouse]
  by (auto simp add: is_tie_def linear_map_def round_def floor_quarter)

text \<open>
  C2, as stated: every normalised position is clamped into the 16-bit signed range. It is not:
  \<^verbatim>\<open>__translate\<close> has no clamp, and the pixel 1000 of an image 800 wide is sent as 49151;
  for an image of width 0 the pixel 5 is normalised to \<open>+\<infinity>\<close> and sent as \<^verbatim>\<open>null\<close>.
\<close>

theorem C2_counterexample:
  "sent (snd (sendMove (stream_image 800 600)
      \<lparr>ws = Some 0, current_pos = pixel 1000 0, sent_pos = pixel 0 0, stream_hovered = True\<rparr>))
     = [JObject [(''event_type'', JString ''mouse_move''),
                 (''to'', JObject [(''x'', JNumber 49151), (''y'', JNumber (- 32768))])]]
   \<and> \<not> is_int16 (px (to_of (stream_image 800 600) (pixel 1000 0)))
   \<and> sent (snd (sendMove (stream_image 0 600)
      \<lparr>ws = Some 0, current_pos = pixel 5 0, sent_pos = pixel 0 0, stream_hovered = True\<rparr>))
     = [JObject [(''event_type'', JString ''mouse_move''),
                 (''to'', JObject [(''x'', JNull), (''y'', JNumber (- 32768))])]]
   \<and> \<not> is_int16 (px (to_of (stream_image 0 600) (pixel 5 0)))"
  using translate_zero[of 600] translate_by_zero[of 5]
  by (simp add: sent_sendMove to_of_def stream_image_def pixel_def differs_def translate_1000_800
      json_point_def)

text \<open>
  C2, amended. For an image of integer width and height, both positive and below \<open>2 ^ 53\<close>,
  and an integer pixel position with \<open>0 \<le> x \<le> width\<close> and \<open>0 \<le> y \<le> height\<close>, the move
  message that a flush sends carries two integers of the range \<open>[-32768, 32767]\<close>.
\<close>

theorem C2_move_in_range:
  assumes "0 \<le> x" "x \<le> w" "0 < w" "w < 2 ^ 53"
    and "0 \<le> y" "y \<le> h" "0 < h" "h < 2 ^ 53"
    and "current_pos s = pixel x y" "differs (current_pos s) (sent_pos s)" "ws s = Some sock"
  shows "\<exists>n m. sent (snd (sendMove (stream_image w h) s))
              = [JObject [(''event_type'', JString ''mouse_move''),
                          (''to'', JObject [(''x'', JNumber (of_int n)), (''y'', JNumber (of_int m))])]]
            \<and> - 32768 \<le> n \<and> n \<le> 32767 \<and> - 32768 \<le> m \<and> m \<le> 32767"
proof -
  from translate_in_range[OF assms(1-4)] obtain n where
    n: "translate (Fin (of_int x)) (Fin 0) (Fin (of_int w)) (Fin (- 32768)) (Fin 32767) = Fin (of_int n)"
      "- 32768 \<le> n" "n \<le> 32767" by blast
  from translate_in_range[OF assms(5-8)] obtain m where
    m: "translate (Fin (of_int y)) (Fin 0) (Fin (of_int h)) (Fin (- 32768)) (Fin 32767) = Fin (of_int m)"
      "- 32768 \<le> m" "m \<le> 32767" by blast
  have to: "to_of (stream_image w h) (pixel x y) = \<lparr>px = Fin (of_int n), py = Fin (of_int m)\<rparr>"
    by (simp add: to_of_def stream_image_def pixel_def n(1) m(1))
  have "sent (snd (sendMove (stream_image w h) s))
          = [JObject [(''event_type'', JString ''mouse_move''),
                      (''to'', JObject [(''x'', JNumber (of_int n)), (''y'', JNumber (of_int m))])]]"
    using assms(9-11) by (simp add: sent_sendMove to json_point_def)
  with n(2,3) m(2,3) show ?thesis by blast
qed

theorem C2_move_in_range_witness:
  "\<exists>n m. sent (snd (sendMove (stream_image 800 600)
      \<lparr>ws = Some 0, current_pos = pixel 799 599, sent_pos = pixel 0 0, stream_hovered = True\<rparr>))
       = [JObject [(''event_type'', JString ''mouse_move''),
                   (''to'', JObject [(''x'', JNumber (of_int n)), (''y'', JNumber (of_int m))])]]
     \<and> - 32768 \<le> n \<and> n \<le> 32767 \<and> - 32768 \<le> m \<and> m \<le> 32767"
  using C2_move_in_range[of 799 800 599 600
      "\<lparr>ws = Some 0, current_pos = pixel 799 599, sent_pos = pixel 0 0, stream_hovered = True\<rparr>" 0]
  by (simp add: pixel_def differs_def)

text \<open>
  C3, as stated: with a viewport extent of 0 the normalisation returns a sentinel or the send
  is skipped. Neither happens: for an image of size 0 by 0 the pixel \<open>(5, 0)\<close> is normalised
  to \<open>(+\<infinity>, NaN)\<close>, two different values, and the move message is sent, each
  coordinate written \<^verbatim>\<open>null\<close>.
\<close>

theorem C3_counterexample:
  "to_of (stream_image 0 0) (pixel 5 0) = \<lparr>px = PosInf, py = NaN\<rparr>
   \<and> sent (snd (sendMove (stream_image 0 0)
      \<lparr>ws = Some 0, current_pos = pixel 5 0, sent_pos = pixel 0 0, stream_hovered = True\<rparr>))
     = [JObject [(''event_type'', JString ''mouse_move''),
                 (''to'', JObject [(''x'', JNull), (''y'', JNull)])]]"
  using translate_by_zero[of 5] translate_by_zero[of 0]
  by (simp add: sent_sendMove to_of_def stream_image_def pixel_def differs_def json_point_def)

text \<open>
  C3, amended. With a viewport extent of 0 the division is carried out with the semantics of
  JavaScript numbers, without a guard: the normalised value of an integer \<open>v\<close> is NaN for
  \<open>v = 0\<close>, \<open>+\<infinity>\<close> for \<open>v > 0\<close> and \<open>-\<infinity>\<close> for \<open>v < 0\<close>. The flush does not skip
  the send: the move message goes out, and \<^verbatim>\<open>JSON.stringify\<close> writes \<^verbatim>\<open>null\<close> for
  the coordinate whose extent is 0.
\<close>

theorem C3_division_by_zero_unguarded:
  assumes "ws s = Some sock" "differs (current_pos s) (sent_pos s)" "current_pos s = pixel x y"
  shows "translate (Fin (of_int v)) (Fin 0) (Fin 0) (Fin (- 32768)) (Fin 32767)
           = (if v = 0 then NaN else if 0 < v then PosInf else NegInf)
         \<and> sent (snd (sendMove (stream_image 0 h) s))
           = [JObject [(''event_type'', JString ''mouse_move''),
                (''to'', JObject [(''x'', JNull),
                   (''y'', json_number (translate (Fin (of_int y)) (Fin 0) (Fin (of_int h))
                                          (Fin (- 32768)) (Fin 32767)))])]]
         \<and> sent (snd (sendMove (stream_image w 0) s))
           = [JObject [(''event_type'', JString ''mouse_move''),
                (''to'', JObject [
                   (''x'', json_number (translate (Fin (of_int x)) (Fin 0) (Fin (of_int w))
                                          (Fin (- 32768)) (Fin 32767))),
                   (''y'', JNull)])]]"
  using assms translate_by_zero[of x] translate_by_zero[of y] translate_by_zero[of v]
  by (simp add: sent_sendMove to_of_def stream_image_def pixel_def json_point_def)

theorem C3_division_by_zero_unguarded_witness:
  "translate (Fin (of_int (- 3))) (Fin 0) (Fin 0) (Fin (- 32768)) (Fin 32767) = NegInf
   \<and> sent (snd (sendMove (stream_image 0 0)
        \<lparr>ws = Some 0, current_pos = pixel 5 0, sent_pos = pixel 0 0, stream_hovered = True\<rparr>))
      = [JObject [(''event_type'', JString ''mouse_move''),
                  (''to'', JObject [(''x'', JNull), (''y'', JNull)])]]"
  using C3_division_by_zero_unguarded[of
      "\<lparr>ws = Some 0, current_pos = pixel 5 0, sent_pos = pixel 0 0, stream_hovered = True\<rparr>"
      0 5 0 "- 3" 0 0] translate_by_zero[of 0] translate_by_zero[of 5]
  by (simp add: pixel_def differs_def)

text \<open>
  C9, as stated: the last pixel \<open>extent - 1\<close> is normalised to 32767 up to rounding. For an
  extent of 1024 the pixel 1023 is normalised to 32703, which is 64 below.
\<close>

theorem C9_counterexample:
  "\<not> within_rounding (translate (Fin 1023) (Fin 0) (Fin 1024) (Fin (- 32768)) (Fin 32767)) 32767"
  by (simp add: translate_1023_1024)

text \<open>
  C9, amended. For every integer extent, positive and below \<open>2 ^ 53\<close>, the position 0 is
  normalised to -32768 and the position \<open>extent\<close> itself to 32767; the last pixel
  \<open>extent - 1\<close> is normalised to an integer of \<open>[-32768, 32767]\<close> that is within
  \<open>1 / 2 + 1 / 2 ^ 36\<close> of \<open>32767 - 65535 / extent\<close>. For an image of 800 by 600 the pixel
  \<open>(400, 300)\<close> is normalised to \<open>(0, 0)\<close>.
\<close>

theorem C9_endpoints:
  assumes "0 < extent" "extent < 2 ^ 53"
  shows "translate (Fin 0) (Fin 0) (Fin (of_int extent)) (Fin (- 32768)) (Fin 32767) = Fin (- 32768)
       \<and> translate (Fin (of_int extent)) (Fin 0) (Fin (of_int extent)) (Fin (- 32768)) (Fin 32767)
           = Fin 32767
       \<and> (\<exists>n. translate (Fin (of_int (extent - 1))) (Fin 0) (Fin (of_int extent))
                 (Fin (- 32768)) (Fin 32767) = Fin (of_int n)
              \<and> \<bar>of_int n - (32767 - 65535 / of_int extent :: rat)\<bar> \<le> 1 / 2 + 1 / 2 ^ 36
              \<and> - 32768 \<le> n \<and> n \<le> 32767)
       \<and> to_of (stream_image 800 600) (pixel 400 300) = \<lparr>px = Fin 0, py = Fin 0\<rparr>"
proof -
  have x: "0 \<le> extent - 1" "extent - 1 \<le> extent" using assms by simp_all
  from translate_error[OF x assms] obtain n where
    n: "translate (Fin (of_int (extent - 1))) (Fin 0) (Fin (of_int extent)) (Fin (- 32768)) (Fin 32767)
       = Fin (of_int n)" "\<bar>of_int n - linear_map (extent - 1) extent\<bar> \<le> 1 / 2 + 1 / 2 ^ 36"
    by blast
  from translate_in_range[OF x assms] n(1) have "- 32768 \<le> n" "n \<le> 32767" by simp_all
  with n have "\<exists>n. translate (Fin (of_int (extent - 1))) (Fin 0) (Fin (of_int extent))
                 (Fin (- 32768)) (Fin 32767) = Fin (of_int n)
              \<and> \<bar>of_int n - (32767 - 65535 / of_int extent :: rat)\<bar> \<le> 1 / 2 + 1 / 2 ^ 36
              \<and> - 32768 \<le> n \<and> n \<le> 32767"
    unfolding linear_map_ends(3)[OF assms(1)] by blast
  moreover have "to_of (stream_image 800 600) (pixel 400 300) = \<lparr>px = Fin 0, py = Fin 0\<rparr>"
    by (simp add: to_of_def stream_image_def pixel_def translate_half)
  ultimately show ?thesis using translate_zero[OF assms] translate_full[OF assms] by simp
qed

theorem C9_endpoints_witness:
  "translate (Fin 0) (Fin 0) (Fin 800) (Fin (- 32768)) (Fin 32767) = Fin (- 32768)
   \<and> translate (Fin 800) (Fin 0) (Fin 800) (Fin (- 32768)) (Fin 32767) = Fin 32767
   \<and> (\<exists>n. translate (Fin 799) (Fin 0) (Fin 800) (Fin (- 32768)) (Fin 32767) = Fin (of_int n)
          \<and> \<bar>of_int n - (32767 - 65535 / 800 :: rat)\<bar> \<le> 1 / 2 + 1 / 2 ^ 36
          \<and> - 32768 \<le> n \<and> n \<le> 32767)
   \<and> to_of (stream_image 800 600) (pixel 400 300) = \<lparr>px = Fin 0, py = Fin 0\<rparr>"
  using C9_endpoints[of 800] by simp

subsection \<open>Flushes, buttons and touches\<close>

text \<open>
  C4, as stated: a flush transmits a move event exactly when the pointer position differs from
  the sent position, and any number of motion updates within a tick period yields exactly one
  move. With the channel absent a changed position is not transmitted; and with the channel
  present, two motion updates that end on the sent position yield no move at the tick.
\<close>

theorem C4_counterexample:
  "differs (pixel 10 20) (pixel 0 0)
   \<and> sent (snd (sendMove (stream_image 800 600)
        \<lparr>ws = None, current_pos = pixel 10 20, sent_pos = pixel 0 0, stream_hovered = True\<rparr>)) = []
   \<and> sent (snd (run
        [Mousemove \<lparr>button = 0, clientX = Fin 300, clientY = Fin 200,
                     target_rect = \<lparr>rect_left = Fin 100, rect_top = Fin 50\<rparr>\<rparr>,
         Mousemove \<lparr>button = 0, clientX = Fin 110, clientY = Fin 70,
                     target_rect = \<lparr>rect_left = Fin 100, rect_top = Fin 50\<rparr>\<rparr>,
         Tick (stream_image 800 600)]
        \<lparr>ws = Some 0, current_pos = pixel 10 20, sent_pos = pixel 10 20, stream_hovered = True\<rparr>)) = []"
  by (simp add: sent_sendMove differs_def pixel_def moveHandler_def js_sub_def fl_numeral
      Math_round_numeral del: Math_round.simps)

text \<open>
  C4, amended. A flush transmits a move event exactly when the channel is present and the
  pointer position differs from the sent position in at least one coordinate. If the pointer
  position (no coordinate of which is NaN) is unchanged across two consecutive flushes, the
  second one sends nothing. One or more motion updates followed by a tick yield at most one
  move: exactly one, for the position of the last update, when the channel is present and that
  position differs from the sent position, and none otherwise.
\<close>

theorem C4_flush_sends_iff_changed_and_online:
  "sent (snd (sendMove el s)) =
     (if ws s \<noteq> None \<and> differs (current_pos s) (sent_pos s)
      then [JSON_stringify (Mouse_move (to_of el (current_pos s)))] else [])
   \<and> (defined_pos (current_pos s) \<longrightarrow> sent (snd (sendMove el' (fst (sendMove el s)))) = [])
   \<and> (evs \<noteq> [] \<longrightarrow>
        sent (snd (run (map Mousemove evs @ [Tick el]) s)) =
          (if ws s \<noteq> None \<and> differs (current_pos (moveHandler (last evs) s)) (sent_pos s)
           then [JSON_stringify (Mouse_move (to_of el (current_pos (moveHandler (last evs) s))))] else []))"
proof (intro conjI impI)
  show "sent (snd (sendMove el s)) =
     (if ws s \<noteq> None \<and> differs (current_pos s) (sent_pos s)
      then [JSON_stringify (Mouse_move (to_of el (current_pos s)))] else [])"
    by (rule sent_sendMove)
next
  assume "defined_pos (current_pos s)"
  from flushed[OF this, of el] show "sent (snd (sendMove el' (fst (sendMove el s)))) = []"
    by (simp add: sent_sendMove)
next
  assume ne: "evs \<noteq> []"
  have "run (map Mousemove evs @ [Tick el]) s = sendMove el (fold moveHandler evs s)"
    by (simp add: run_append run_moves Let_def split_beta)
  then show "sent (snd (run (map Mousemove evs @ [Tick el]) s)) =
          (if ws s \<noteq> None \<and> differs (current_pos (moveHandler (last evs) s)) (sent_pos s)
           then [JSON_stringify (Mouse_move (to_of el (current_pos (moveHandler (last evs) s))))] else [])"
    by (simp add: sent_sendMove fold_moveHandler(1,2) fold_moveHandler(3)[OF ne])
qed

theorem C4_flush_sends_iff_changed_and_online_witness:
  "sent (snd (sendMove (stream_image 800 600)
      \<lparr>ws = Some 0, current_pos = pixel 10 20, sent_pos = pixel 0 0, stream_hovered = True\<rparr>))
     = [JSON_stringify (Mouse_move (to_of (stream_image 800 600) (pixel 10 20)))]
   \<and> sent (snd (sendMove (stream_image 640 480) (fst (sendMove (stream_image 800 600)
      \<lparr>ws = Some 0, current_pos = pixel 10 20, sent_pos = pixel 0 0, stream_hovered = True\<rparr>)))) = []
   \<and> sent (snd (run (map Mousemove
        [\<lparr>button = 0, clientX = Fin 300, clientY = Fin 200, target_rect = \<lparr>rect_left = Fin 100, rect_top = Fin 50\<rparr>\<rparr>,
         \<lparr>button = 0, clientX = Fin 107, clientY = Fin 59, target_rect = \<lparr>rect_left = Fin 100, rect_top = Fin 50\<rparr>\<rparr>]
        @ [Tick (stream_image 800 600)])
      \<lparr>ws = Some 0, current_pos = pixel 10 20, sent_pos = pixel 0 0, stream_hovered = True\<rparr>))
     = [JSON_stringify (Mouse_move (to_of (stream_image 800 600) (pixel 7 9)))]"
  using C4_flush_sends_iff_changed_and_online[of "stream_image 800 600"
      "\<lparr>ws = Some 0, current_pos = pixel 10 20, sent_pos = pixel 0 0, stream_hovered = True\<rparr>"
      "stream_image 640 480"
      "[\<lparr>button = 0, clientX = Fin 300, clientY = Fin 200, target_rect = \<lparr>rect_left = Fin 100, rect_top = Fin 50\<rparr>\<rparr>,
         \<lparr>button = 0, clientX = Fin 107, clientY = Fin 59, target_rect = \<lparr>rect_left = Fin 100, rect_top = Fin 50\<rparr>\<rparr>]"]
  by (simp add: differs_def pixel_def defined_pos_def moveHandler_def js_sub_def fl_numeral
      Math_round_numeral del: Math_round.simps)


text \<open>
  C5, as stated: a press or release of a recognised button with a pending position change
  emits a move and then the button message. With the channel absent it emits nothing.
\<close>

theorem C5_counterexample:
  "differs (pixel 10 20) (pixel 0 0)
   \<and> sent (snd (buttonHandler (stream_image 800 600)
        \<lparr>button = 0, clientX = Fin 110, clientY = Fin 70,
          target_rect = \<lparr>rect_left = Fin 100, rect_top = Fin 50\<rparr>\<rparr> True
        \<lparr>ws = None, current_pos = pixel 10 20, sent_pos = pixel 0 0, stream_hovered = True\<rparr>)) = []"
  by (simp add: sent_button sent_sendMove differs_def pixel_def)

text \<open>
  C5, amended. For a press or release with native code 0 or 2 and a pending position change,
  the handler emits, when the channel is present, exactly two messages: first the move for the
  current position, then the button message; when the channel is absent it emits none.
\<close>

theorem C5_move_before_button:
  assumes "button ev = 0 \<or> button ev = 2" "differs (current_pos s) (sent_pos s)"
  shows "sent (snd (buttonHandler el ev st s)) =
     (case ws s of
        None \<Rightarrow> []
      | Some w \<Rightarrow> [JSON_stringify (Mouse_move (to_of el (current_pos s))),
                   JSON_stringify (Mouse_button (if button ev = 0 then ''left'' else ''right'') st)])"
  using assms by (simp add: sent_button sent_sendMove split: option.split)

theorem C5_move_before_button_witness:
  "sent (snd (buttonHandler (stream_image 800 600)
        \<lparr>button = 2, clientX = Fin 110, clientY = Fin 70,
          target_rect = \<lparr>rect_left = Fin 100, rect_top = Fin 50\<rparr>\<rparr> True
        \<lparr>ws = Some 0, current_pos = pixel 10 20, sent_pos = pixel 0 0, stream_hovered = True\<rparr>))
     = [JSON_stringify (Mouse_move (to_of (stream_image 800 600) (pixel 10 20))), JSON_stringify (Mouse_button ''right'' True)]"
  using C5_move_before_button[of
      "\<lparr>button = 2, clientX = Fin 110, clientY = Fin 70,
          target_rect = \<lparr>rect_left = Fin 100, rect_top = Fin 50\<rparr>\<rparr>"
      "\<lparr>ws = Some 0, current_pos = pixel 10 20, sent_pos = pixel 0 0, stream_hovered = True\<rparr>"
      "stream_image 800 600" True]
  by (simp add: differs_def pixel_def)

text \<open>
  C6, as stated: a touch start produces one move event and then the press of the left button.
  A touch on the position that was sent last produces the press alone; and with the channel
  absent a touch start produces no message.
\<close>

theorem C6_counterexample:
  "touchHandler (stream_image 800 600)
      \<lparr>touches = [\<lparr>touch_clientX = Fin 110, touch_clientY = Fin 70,
                    touch_target_rect = \<lparr>rect_left = Fin 100, rect_top = Fin 50\<rparr>\<rparr>]\<rparr> True
      \<lparr>ws = Some 0, current_pos = pixel 10 20, sent_pos = pixel 10 20, stream_hovered = True\<rparr>
   = Inr (\<lparr>ws = Some 0, current_pos = pixel 10 20, sent_pos = pixel 10 20, stream_hovered = True\<rparr>,
          [Debug_button True ''left'', Send 0 (JSON_stringify (Mouse_button ''left'' True)),
           StopPropagation, PreventDefault])
   \<and> touchHandler (stream_image 800 600)
      \<lparr>touches = [\<lparr>touch_clientX = Fin 110, touch_clientY = Fin 70,
                    touch_target_rect = \<lparr>rect_left = Fin 100, rect_top = Fin 50\<rparr>\<rparr>]\<rparr> True
      \<lparr>ws = None, current_pos = pixel 0 0, sent_pos = pixel 0 0, stream_hovered = True\<rparr>
   = Inr (\<lparr>ws = None, current_pos = pixel 10 20, sent_pos = pixel 10 20, stream_hovered = True\<rparr>,
          [Debug_move (to_of (stream_image 800 600) (pixel 10 20)), Debug_button True ''left'',
           StopPropagation, PreventDefault])"
  by (simp add: touchHandler_start touch_pos_def sendMove_eq differs_def pixel_def js_sub_def
      fl_numeral Math_round_numeral del: Math_round.simps)

text \<open>
  C6, amended. A touch start sets the pointer position to the first touch point (relative to
  its target, rounded); when the channel is present it then produces a move event for that
  point if the point differs from the sent position, and no move event otherwise, followed by
  the press of the left button. A touch end leaves the state as it is and, when the channel is
  present, produces the release of the left button alone. With the channel absent neither
  produces a message.
\<close>

theorem C6_touch:
  "(touches ev = t # ts \<longrightarrow>
      (\<exists>s' out. touchHandler el ev True s = Inr (s', out)
         \<and> current_pos s' = touch_pos t
         \<and> sent out =
             (case ws s of
                None \<Rightarrow> []
              | Some w \<Rightarrow>
                  (if differs (touch_pos t) (sent_pos s)
                   then [JSON_stringify (Mouse_move (to_of el (touch_pos t)))] else []) @
                  [JSON_stringify (Mouse_button ''left'' True)])))
   \<and> (\<exists>out. touchHandler el ev False s = Inr (s, out)
         \<and> sent out = (case ws s of None \<Rightarrow> [] | Some w \<Rightarrow> [JSON_stringify (Mouse_button ''left'' False)]))"
  by (simp add: touchHandler_start touchHandler_end sent_append sent_sendMove sendMove_current
      split: option.split)

theorem C6_touch_witness:
  "(\<exists>s' out. touchHandler (stream_image 800 600)
        \<lparr>touches = [\<lparr>touch_clientX = Fin 110, touch_clientY = Fin 70,
                      touch_target_rect = \<lparr>rect_left = Fin 100, rect_top = Fin 50\<rparr>\<rparr>]\<rparr> True
        \<lparr>ws = Some 0, current_pos = pixel 0 0, sent_pos = pixel 0 0, stream_hovered = True\<rparr>
          = Inr (s', out)
      \<and> current_pos s' = pixel 10 20
      \<and> sent out = [JSON_stringify (Mouse_move (to_of (stream_image 800 600) (pixel 10 20))), JSON_stringify (Mouse_button ''left'' True)])
   \<and> (\<exists>out. touchHandler (stream_image 800 600)
        \<lparr>touches = [\<lparr>touch_clientX = Fin 110, touch_clientY = Fin 70,
                      touch_target_rect = \<lparr>rect_left = Fin 100, rect_top = Fin 50\<rparr>\<rparr>]\<rparr> False
        \<lparr>ws = Some 0, current_pos = pixel 0 0, sent_pos = pixel 0 0, stream_hovered = True\<rparr>
          = Inr (\<lparr>ws = Some 0, current_pos = pixel 0 0, sent_pos = pixel 0 0, stream_hovered = True\<rparr>, out)
      \<and> sent out = [JSON_stringify (Mouse_button ''left'' False)])"
  using C6_touch[of
      "\<lparr>touches = [\<lparr>touch_clientX = Fin 110, touch_clientY = Fin 70,
                      touch_target_rect = \<lparr>rect_left = Fin 100, rect_top = Fin 50\<rparr>\<rparr>]\<rparr>"
      "\<lparr>touch_clientX = Fin 110, touch_clientY = Fin 70,
                      touch_target_rect = \<lparr>rect_left = Fin 100, rect_top = Fin 50\<rparr>\<rparr>" "[]"
      "stream_image 800 600"
      "\<lparr>ws = Some 0, current_pos = pixel 0 0, sent_pos = pixel 0 0, stream_hovered = True\<rparr>"]
  by (simp add: touch_pos_def differs_def pixel_def js_sub_def fl_numeral Math_round_numeral
      del: Math_round.simps)

text \<open>
  C7. For a native button code other than 0 and 2 the button handler returns the state as it
  is and does nothing: no message, no suppression of the default action. For code 0 it
  suppresses the default action, flushes the position and reports the button
  \<^verbatim>\<open>"left"\<close>; for code 2 it does the same with \<^verbatim>\<open>"right"\<close>.
\<close>

theorem C7_button_codes:
  "(button ev \<noteq> 0 \<and> button ev \<noteq> 2 \<longrightarrow> buttonHandler el ev st s = (s, []))
   \<and> (button ev = 0 \<longrightarrow>
        snd (buttonHandler el ev st s) =
          [PreventDefault, Debug_button st ''left''] @ snd (sendMove el s) @
          (case ws s of None \<Rightarrow> [] | Some w \<Rightarrow> [Send w (JSON_stringify (Mouse_button ''left'' st))]))
   \<and> (button ev = 2 \<longrightarrow>
        snd (buttonHandler el ev st s) =
          [PreventDefault, Debug_button st ''right''] @ snd (sendMove el s) @
          (case ws s of None \<Rightarrow> [] | Some w \<Rightarrow> [Send w (JSON_stringify (Mouse_button ''right'' st))]))"
  by (simp add: buttonHandler_eq)

theorem C7_button_codes_witness:
  "buttonHandler (stream_image 800 600)
      \<lparr>button = 1, clientX = Fin 110, clientY = Fin 70,
        target_rect = \<lparr>rect_left = Fin 100, rect_top = Fin 50\<rparr>\<rparr> True
      \<lparr>ws = Some 0, current_pos = pixel 10 20, sent_pos = pixel 0 0, stream_hovered = True\<rparr>
     = (\<lparr>ws = Some 0, current_pos = pixel 10 20, sent_pos = pixel 0 0, stream_hovered = True\<rparr>, [])
   \<and> snd (buttonHandler (stream_image 800 600)
      \<lparr>button = 0, clientX = Fin 110, clientY = Fin 70,
        target_rect = \<lparr>rect_left = Fin 100, rect_top = Fin 50\<rparr>\<rparr> True
      \<lparr>ws = Some 0, current_pos = pixel 10 20, sent_pos = pixel 10 20, stream_hovered = True\<rparr>)
     = [PreventDefault, Debug_button True ''left'', Send 0 (JSON_stringify (Mouse_button ''left'' True))]
   \<and> snd (buttonHandler (stream_image 800 600)
      \<lparr>button = 2, clientX = Fin 110, clientY = Fin 70,
        target_rect = \<lparr>rect_left = Fin 100, rect_top = Fin 50\<rparr>\<rparr> False
      \<lparr>ws = Some 0, current_pos = pixel 10 20, sent_pos = pixel 10 20, stream_hovered = True\<rparr>)
     = [PreventDefault, Debug_button False ''right'', Send 0 (JSON_stringify (Mouse_button ''right'' False))]"
  using
    C7_button_codes[of
      "\<lparr>button = 1, clientX = Fin 110, clientY = Fin 70,
        target_rect = \<lparr>rect_left = Fin 100, rect_top = Fin 50\<rparr>\<rparr>" "stream_image 800 600" True
      "\<lparr>ws = Some 0, current_pos = pixel 10 20, sent_pos = pixel 0 0, stream_hovered = True\<rparr>"]
    C7_button_codes[of
      "\<lparr>button = 0, clientX = Fin 110, clientY = Fin 70,
        target_rect = \<lparr>rect_left = Fin 100, rect_top = Fin 50\<rparr>\<rparr>" "stream_image 800 600" True
      "\<lparr>ws = Some 0, current_pos = pixel 10 20, sent_pos = pixel 10 20, stream_hovered = True\<rparr>"]
    C7_button_codes[of
      "\<lparr>button = 2, clientX = Fin 110, clientY = Fin 70,
        target_rect = \<lparr>rect_left = Fin 100, rect_top = Fin 50\<rparr>\<rparr>" "stream_image 800 600" False
      "\<lparr>ws = Some 0, current_pos = pixel 10 20, sent_pos = pixel 10 20, stream_hovered = True\<rparr>"]
  by (simp add: sendMove_eq differs_def pixel_def)

text \<open>
  C8. With the channel absent no send path transmits anything: not the flush, not the button
  handler, not the wheel handler (which leaves the state as it is), not the touch handler,
  which returns normally whenever the touch start has a touch point. Nothing is transmitted
  by any run of events that does not set a socket, and setting a socket afterwards transmits
  nothing either: no message was kept for later.
\<close>

theorem C8_absent_channel_is_silent:
  assumes "ws s = None" "list_all keeps_offline evs"
  shows "sent (snd (sendMove el s)) = []
       \<and> sent (snd (buttonHandler el ev st s)) = []
       \<and> wheelHandler wev s = (s, (if has_preventDefault wev then [PreventDefault] else []) @
                                   [Debug_wheel \<lparr>px = deltaX wev, py = deltaY wev\<rparr>])
       \<and> (touches tev \<noteq> [] \<or> \<not> st \<longrightarrow>
            (\<exists>s' out. touchHandler el tev st s = Inr (s', out) \<and> sent out = []))
       \<and> sent (snd (run evs s)) = []
       \<and> sent (snd (setSocket w (fst (run evs s)))) = []"
proof (intro conjI impI)
  show "sent (snd (sendMove el s)) = []" using assms(1) by (simp add: sent_sendMove)
  show "sent (snd (buttonHandler el ev st s)) = []"
    using assms(1) by (simp add: sent_button sent_sendMove)
  show "wheelHandler wev s = (s, (if has_preventDefault wev then [PreventDefault] else []) @
                                   [Debug_wheel \<lparr>px = deltaX wev, py = deltaY wev\<rparr>])"
    using assms(1) by (simp add: wheelHandler_def Let_def)
  show "sent (snd (run evs s)) = []" using run_offline[OF assms(2,1)] by simp
  show "sent (snd (setSocket w (fst (run evs s)))) = []" by (simp add: setSocket_def)
next
  assume "touches tev \<noteq> [] \<or> \<not> st"
  then show "\<exists>s' out. touchHandler el tev st s = Inr (s', out) \<and> sent out = []"
  proof (cases st)
    case False
    then show ?thesis using assms(1) by (simp add: touchHandler_end)
  next
    case True
    with \<open>touches tev \<noteq> [] \<or> \<not> st\<close> obtain t ts where "touches tev = t # ts"
      by (cases "touches tev") auto
    then show ?thesis using True assms(1)
      by (simp add: touchHandler_start sent_append sent_sendMove)
  qed
qed

theorem C8_absent_channel_is_silent_witness:
  "sent (snd (sendMove (stream_image 800 600)
      \<lparr>ws = None, current_pos = pixel 10 20, sent_pos = pixel 0 0, stream_hovered = True\<rparr>)) = []
   \<and> sent (snd (buttonHandler (stream_image 800 600)
      \<lparr>button = 0, clientX = Fin 110, clientY = Fin 70,
        target_rect = \<lparr>rect_left = Fin 100, rect_top = Fin 50\<rparr>\<rparr> True
      \<lparr>ws = None, current_pos = pixel 10 20, sent_pos = pixel 0 0, stream_hovered = True\<rparr>)) = []
   \<and> wheelHandler \<lparr>has_preventDefault = True, deltaX = Fin 0, deltaY = Fin 3\<rparr>
      \<lparr>ws = None, current_pos = pixel 10 20, sent_pos = pixel 0 0, stream_hovered = True\<rparr>
     = (\<lparr>ws = None, current_pos = pixel 10 20, sent_pos = pixel 0 0, stream_hovered = True\<rparr>,
        [PreventDefault, Debug_wheel \<lparr>px = Fin 0, py = Fin 3\<rparr>])
   \<and> (\<exists>s' out. touchHandler (stream_image 800 600)
        \<lparr>touches = [\<lparr>touch_clientX = Fin 110, touch_clientY = Fin 70,
                      touch_target_rect = \<lparr>rect_left = Fin 100, rect_top = Fin 50\<rparr>\<rparr>]\<rparr> True
        \<lparr>ws = None, current_pos = pixel 10 20, sent_pos = pixel 0 0, stream_hovered = True\<rparr>
          = Inr (s', out) \<and> sent out = [])
   \<and> sent (snd (run
        [Tick (stream_image 800 600),
         Wheel \<lparr>has_preventDefault = True, deltaX = Fin 0, deltaY = Fin 3\<rparr>,
         SetSocket None]
        \<lparr>ws = None, current_pos = pixel 10 20, sent_pos = pixel 0 0, stream_hovered = True\<rparr>)) = []
   \<and> sent (snd (setSocket (Some 0) (fst (run
        [Tick (stream_image 800 600),
         Wheel \<lparr>has_preventDefault = True, deltaX = Fin 0, deltaY = Fin 3\<rparr>,
         SetSocket None]
        \<lparr>ws = None, current_pos = pixel 10 20, sent_pos = pixel 0 0, stream_hovered = True\<rparr>)))) = []"
  using C8_absent_channel_is_silent[of
      "\<lparr>ws = None, current_pos = pixel 10 20, sent_pos = pixel 0 0, stream_hovered = True\<rparr>"
      "[Tick (stream_image 800 600),
         Wheel \<lparr>has_preventDefault = True, deltaX = Fin 0, deltaY = Fin 3\<rparr>,
         SetSocket None]"
      "stream_image 800 600"
      "\<lparr>button = 0, clientX = Fin 110, clientY = Fin 70,
        target_rect = \<lparr>rect_left = Fin 100, rect_top = Fin 50\<rparr>\<rparr>" True
      "\<lparr>has_preventDefault = True, deltaX = Fin 0, deltaY = Fin 3\<rparr>"
      "\<lparr>touches = [\<lparr>touch_clientX = Fin 110, touch_clientY = Fin 70,
                      touch_target_rect = \<lparr>rect_left = Fin 100, rect_top = Fin 50\<rparr>\<rparr>]\<rparr>"
      "Some 0"]
  by simp

text \<open>
  C10. With the channel absent and a pointer position (no coordinate of which is NaN) that
  differs from the sent position, a flush sets the sent position to the pointer position and
  sends nothing. After that no run of events that leaves the pointer position alone, whether
  it sets a socket, ticks or presses buttons, sends a move event.
\<close>

theorem C10_absent_channel_consumes_change:
  assumes "ws s = None" "differs (current_pos s) (sent_pos s)" "defined_pos (current_pos s)"
    and "list_all keeps_pointer evs"
  shows "sendMove el s = (s\<lparr>sent_pos := current_pos s\<rparr>, [Debug_move (to_of el (current_pos s))])
       \<and> sent (snd (sendMove el s)) = []
       \<and> filter is_move (sent (snd (run evs (fst (sendMove el s))))) = []"
proof -
  have 1: "sendMove el s = (s\<lparr>sent_pos := current_pos s\<rparr>, [Debug_move (to_of el (current_pos s))])"
    using assms(1,2) by (simp add: sendMove_eq)
  have 2: "sent (snd (sendMove el s)) = []" using assms(1) by (simp add: sent_sendMove)
  have 3: "filter is_move (sent (snd (run evs (fst (sendMove el s))))) = []"
    using assms(4) flushed[OF assms(3)] by (rule run_flushed)
  from 1 2 3 show ?thesis by simp
qed

theorem C10_absent_channel_consumes_change_witness:
  "sendMove (stream_image 800 600)
      \<lparr>ws = None, current_pos = pixel 10 20, sent_pos = pixel 0 0, stream_hovered = True\<rparr>
     = (\<lparr>ws = None, current_pos = pixel 10 20, sent_pos = pixel 10 20, stream_hovered = True\<rparr>,
        [Debug_move (to_of (stream_image 800 600) (pixel 10 20))])
   \<and> filter is_move (sent (snd (run
        [SetSocket (Some 0), Tick (stream_image 800 600),
         Mousedown (stream_image 800 600)
           \<lparr>button = 0, clientX = Fin 110, clientY = Fin 70,
             target_rect = \<lparr>rect_left = Fin 100, rect_top = Fin 50\<rparr>\<rparr>,
         Tick (stream_image 800 600)]
        (fst (sendMove (stream_image 800 600)
          \<lparr>ws = None, current_pos = pixel 10 20, sent_pos = pixel 0 0, stream_hovered = True\<rparr>))))) = []"
  using C10_absent_channel_consumes_change[of
      "\<lparr>ws = None, current_pos = pixel 10 20, sent_pos = pixel 0 0, stream_hovered = True\<rparr>"
      "[SetSocket (Some 0), Tick (stream_image 800 600),
         Mousedown (stream_image 800 600)
           \<lparr>button = 0, clientX = Fin 110, clientY = Fin 70,
             target_rect = \<lparr>rect_left = Fin 100, rect_top = Fin 50\<rparr>\<rparr>,
         Tick (stream_image 800 600)]"
      "stream_image 800 600"]
  by (simp add: differs_def defined_pos_def pixel_def sendMove_eq)

end
